theory Spec2Isabelle
  imports Main
begin

section \<open>Strings of the host language\<close>

text \<open>
  JavaScript strings are modelled as HOL strings (lists of 8-bit characters); the texts the
  program builds and tests are ASCII, a character outside ASCII is its UTF-8 bytes. A value
  of type \<open>string | null | undefined\<close> is a \<open>string option\<close>.
\<close>

definition is_digit :: "char \<Rightarrow> bool" where
  \<comment> \<open>the regular-expression class \<open>\d\<close>: the ten ASCII digits\<close>
  "is_digit c = ((48::nat) \<le> of_char c \<and> of_char c \<le> (57::nat))"

definition digit_val :: "char \<Rightarrow> nat" where
  "digit_val c = of_char c - (48::nat)"

definition parseInt10 :: "string \<Rightarrow> nat" where
  \<comment> \<open>\<open>Number.parseInt(s, 10)\<close> on a non-empty string of digits\<close>
  "parseInt10 s = foldl (\<lambda>acc c. 10 * acc + digit_val c) 0 s"

fun starts_with :: "string \<Rightarrow> string \<Rightarrow> bool" where
  \<comment> \<open>\<open>s.startsWith(w)\<close>\<close>
  "starts_with s [] = True"
| "starts_with [] (c # cs) = False"
| "starts_with (x # xs) (c # cs) = (x = c \<and> starts_with xs cs)"

fun split_go :: "char \<Rightarrow> string \<Rightarrow> string \<Rightarrow> string list" where
  "split_go sep cur [] = [rev cur]"
| "split_go sep cur (c # cs) =
     (if c = sep then rev cur # split_go sep [] cs else split_go sep (c # cur) cs)"

definition split_char :: "char \<Rightarrow> string \<Rightarrow> string list" where
  \<comment> \<open>\<open>s.split(sep)\<close> for a separator of one character; the result is never empty\<close>
  "split_char sep s = split_go sep [] s"

fun join :: "string \<Rightarrow> string list \<Rightarrow> string" where
  \<comment> \<open>\<open>xs.join(sep)\<close>\<close>
  "join sep [] = []"
| "join sep [x] = x"
| "join sep (x # y # ys) = x @ sep @ join sep (y # ys)"

fun replace_first :: "char \<Rightarrow> string \<Rightarrow> string \<Rightarrow> string" where
  \<comment> \<open>\<open>s.replace(c, r)\<close> with a string pattern of one character: the first occurrence only\<close>
  "replace_first c r [] = []"
| "replace_first c r (x # xs) = (if x = c then r @ xs else x # replace_first c r xs)"

fun replace_all :: "char \<Rightarrow> string \<Rightarrow> string \<Rightarrow> string" where
  \<comment> \<open>\<open>s.replace(/c/g, r)\<close>: every occurrence\<close>
  "replace_all c r [] = []"
| "replace_all c r (x # xs) = (if x = c then r @ replace_all c r xs else x # replace_all c r xs)"

definition padStart2 :: "string \<Rightarrow> string" where
  \<comment> \<open>\<open>s.padStart(2, "0")\<close>\<close>
  "padStart2 s = replicate (2 - length s) CHR ''0'' @ s"

section \<open>Date formatting\<close>

definition iso_prefix :: "string \<Rightarrow> bool" where
  \<comment> \<open>\<open>/^\d{4}-\d{2}-\d{2}/.test(s)\<close>: only the first ten characters are looked at\<close>
  "iso_prefix s =
     (case s of
        y1 # y2 # y3 # y4 # h1 # m1 # m2 # h2 # d1 # d2 # _ \<Rightarrow>
          is_digit y1 \<and> is_digit y2 \<and> is_digit y3 \<and> is_digit y4 \<and> h1 = CHR ''-'' \<and>
          is_digit m1 \<and> is_digit m2 \<and> h2 = CHR ''-'' \<and> is_digit d1 \<and> is_digit d2
      | _ \<Rightarrow> False)"

definition formatDate :: "string option \<Rightarrow> string" where
  "formatDate isoDate =
     (case isoDate of
        None \<Rightarrow> ''N/A''
      | Some s \<Rightarrow>
          if s = [] \<or> \<not> iso_prefix s then ''N/A''
          else
            (case split_char CHR ''T'' s of
               [] \<Rightarrow> ''N/A''
             | p # _ \<Rightarrow>
                 (case split_char CHR ''-'' p of
                    year # month # day # _ \<Rightarrow>
                      if year = [] \<or> month = [] \<or> day = [] then ''N/A''
                      else day @ ''.'' @ month @ ''.'' @ year
                  | _ \<Rightarrow> ''N/A'')))"

section \<open>The host's calendar: time values and the \<open>Date\<close> object\<close>

text \<open>
  The program validates a date by building a \<open>Date\<close> and reading it back, so the
  \<open>Date\<close> of the language standard (ECMA-262, "Time Values and Time Range", "Date
  Objects") is part of the model. A time value is an integer number of milliseconds since
  1970-01-01T00:00:00Z; the invalid date (\<open>NaN\<close>) is \<open>None\<close>. The functions below
  keep the standard's names and defining equations.
\<close>

definition msPerDay :: int where
  "msPerDay = 86400000"

definition Day :: "int \<Rightarrow> int" where
  "Day t = t div msPerDay"

definition DaysInYear :: "int \<Rightarrow> int" where
  "DaysInYear y =
     (if y mod 4 \<noteq> 0 then 365
      else if y mod 100 \<noteq> 0 then 366
      else if y mod 400 \<noteq> 0 then 365
      else 366)"

definition DayFromYear :: "int \<Rightarrow> int" where
  "DayFromYear y =
     365 * (y - 1970) + (y - 1969) div 4 - (y - 1901) div 100 + (y - 1601) div 400"

lemma div_step:
  fixes a n :: int
  assumes "0 < n"
  shows "(a + 1) div n = a div n + (if (a + 1) mod n = 0 then 1 else 0)"
proof -
  have e: "a = n * (a div n) + a mod n" by simp
  have r: "0 \<le> a mod n" "a mod n < n" using assms by auto
  show ?thesis
  proof (cases "a mod n + 1 = n")
    case True
    have "a + 1 = n * (a div n) + n" using e True by linarith
    then have a: "a + 1 = n * (a div n + 1) + 0" by (simp add: algebra_simps)
    have "(a + 1) div n = a div n + 1"
      by (rule int_div_pos_eq [OF a]) (use assms in auto)
    moreover have "(a + 1) mod n = 0"
      by (rule int_mod_pos_eq [OF a]) (use assms in auto)
    ultimately show ?thesis by simp
  next
    case False
    have a: "a + 1 = n * (a div n) + (a mod n + 1)" using e by linarith
    have "(a + 1) div n = a div n"
      by (rule int_div_pos_eq [OF a]) (use r False in auto)
    moreover have "(a + 1) mod n = a mod n + 1"
      by (rule int_mod_pos_eq [OF a]) (use r False in auto)
    ultimately show ?thesis using r by simp
  qed
qed
lemma mod_shift: "(y - n * k) mod n = y mod n" for y n k :: int
  by (metis mod_diff_right_eq mod_mult_self1_is_0 diff_zero)
lemma mod_100_imp_4: "y mod 100 = 0 \<Longrightarrow> y mod 4 = 0" for y :: int
proof -
  assume "y mod 100 = 0"
  then obtain k where "y = 100 * k" by (auto simp: mod_eq_0_iff_dvd)
  then have "y = 4 * (25 * k)" by simp
  then show ?thesis by (simp only: mod_mult_self1_is_0)
qed
lemma mod_400_imp_100: "y mod 400 = 0 \<Longrightarrow> y mod 100 = 0" for y :: int
proof -
  assume "y mod 400 = 0"
  then obtain k where "y = 400 * k" by (auto simp: mod_eq_0_iff_dvd)
  then have "y = 100 * (4 * k)" by simp
  then show ?thesis by (simp only: mod_mult_self1_is_0)
qed
lemma DayFromYear_Suc: "DayFromYear (y + 1) = DayFromYear y + DaysInYear y"
proof -
  have s4: "(y - 1968) mod 4 = y mod 4" using mod_shift [of y 4 492] by simp
  have s100: "(y - 1900) mod 100 = y mod 100" using mod_shift [of y 100 19] by simp
  have s400: "(y - 1600) mod 400 = y mod 400" using mod_shift [of y 400 4] by simp
  have d4: "(y - 1968) div 4 = (y - 1969) div 4 + (if y mod 4 = 0 then 1 else 0)"
    using div_step [of 4 "y - 1969"] s4 by simp
  have d100: "(y - 1900) div 100 = (y - 1901) div 100 + (if y mod 100 = 0 then 1 else 0)"
    using div_step [of 100 "y - 1901"] s100 by simp
  have d400: "(y - 1600) div 400 = (y - 1601) div 400 + (if y mod 400 = 0 then 1 else 0)"
    using div_step [of 400 "y - 1601"] s400 by simp
  have "DayFromYear (y + 1) =
          365 * (y - 1969) + (y - 1968) div 4 - (y - 1900) div 100 + (y - 1600) div 400"
    by (simp add: DayFromYear_def)
  also have "\<dots> = DayFromYear y + DaysInYear y"
    unfolding d4 d100 d400 DayFromYear_def DaysInYear_def
    using mod_100_imp_4 [of y] mod_400_imp_100 [of y] by (simp split: if_splits)
  finally show ?thesis .
qed

lemma DaysInYear_pos: "0 < DaysInYear y"
  by (simp add: DaysInYear_def)

lemma DayFromYear_less_Suc: "DayFromYear y < DayFromYear (y + 1)"
  using DaysInYear_pos [of y] by (simp add: DayFromYear_Suc)

text \<open>
  \<open>YearFromTime(t)\<close> is the largest year whose first day is not after \<open>t\<close>. It is
  computed by walking down from an estimate to a year that starts on or before the day,
  then up while the next year also starts on or before it.
\<close>

function year_down :: "int \<Rightarrow> int \<Rightarrow> int" where
  "year_down d y = (if d < DayFromYear y then year_down d (y - 1) else y)"
  by pat_completeness auto
termination
proof (relation "measure (\<lambda>(d, y). nat (DayFromYear y - d))")
  show "wf (measure (\<lambda>(d, y). nat (DayFromYear y - d)))" by simp
next
  fix d y :: int
  assume "d < DayFromYear y"
  moreover have "DayFromYear (y - 1) < DayFromYear y"
    using DayFromYear_less_Suc [of "y - 1"] by simp
  ultimately show "((d, y - 1), (d, y)) \<in> measure (\<lambda>(d, y). nat (DayFromYear y - d))"
    by simp
qed

function year_up :: "int \<Rightarrow> int \<Rightarrow> int" where
  "year_up d y = (if DayFromYear (y + 1) \<le> d then year_up d (y + 1) else y)"
  by pat_completeness auto
termination
proof (relation "measure (\<lambda>(d, y). nat (d + 1 - DayFromYear (y + 1)))")
  show "wf (measure (\<lambda>(d, y). nat (d + 1 - DayFromYear (y + 1))))" by simp
next
  fix d y :: int
  assume "DayFromYear (y + 1) \<le> d"
  moreover have "DayFromYear (y + 1) < DayFromYear (y + 1 + 1)"
    by (rule DayFromYear_less_Suc)
  ultimately show "((d, y + 1), (d, y)) \<in> measure (\<lambda>(d, y). nat (d + 1 - DayFromYear (y + 1)))"
    by simp
qed

declare year_down.simps [simp del]
declare year_up.simps [simp del]

definition YearFromTime :: "int \<Rightarrow> int" where
  "YearFromTime t = year_up (Day t) (year_down (Day t) (1970 + Day t div 365))"

definition InLeapYear :: "int \<Rightarrow> int" where
  "InLeapYear t = (if DaysInYear (YearFromTime t) = 366 then 1 else 0)"

definition DayWithinYear :: "int \<Rightarrow> int" where
  "DayWithinYear t = Day t - DayFromYear (YearFromTime t)"

definition MonthFromTime :: "int \<Rightarrow> int" where
  \<comment> \<open>months are numbered from 0\<close>
  "MonthFromTime t =
     (let d = DayWithinYear t; l = InLeapYear t in
      if d < 31 then 0
      else if d < 59 + l then 1
      else if d < 90 + l then 2
      else if d < 120 + l then 3
      else if d < 151 + l then 4
      else if d < 181 + l then 5
      else if d < 212 + l then 6
      else if d < 243 + l then 7
      else if d < 273 + l then 8
      else if d < 304 + l then 9
      else if d < 334 + l then 10
      else 11)"

definition DateFromTime :: "int \<Rightarrow> int" where
  "DateFromTime t =
     (let d = DayWithinYear t; l = InLeapYear t; m = MonthFromTime t in
      if m = 0 then d + 1
      else if m = 1 then d - 30
      else if m = 2 then d - 58 - l
      else if m = 3 then d - 89 - l
      else if m = 4 then d - 119 - l
      else if m = 5 then d - 150 - l
      else if m = 6 then d - 180 - l
      else if m = 7 then d - 211 - l
      else if m = 8 then d - 242 - l
      else if m = 9 then d - 272 - l
      else if m = 10 then d - 303 - l
      else d - 333 - l)"

definition DaysInMonth :: "int \<Rightarrow> int \<Rightarrow> int" where
  \<comment> \<open>the length of month \<open>m\<close> (1 to 12) of year \<open>y\<close>\<close>
  "DaysInMonth y m =
     (if m = 2 then (if DaysInYear y = 366 then 29 else 28)
      else if m = 4 \<or> m = 6 \<or> m = 9 \<or> m = 11 then 30
      else 31)"

definition valid_date :: "int \<Rightarrow> int \<Rightarrow> int \<Rightarrow> bool" where
  \<comment> \<open>a calendar date of the proleptic Gregorian calendar\<close>
  "valid_date y m d = (1 \<le> m \<and> m \<le> 12 \<and> 1 \<le> d \<and> d \<le> DaysInMonth y m)"

definition month_start :: "int \<Rightarrow> int \<Rightarrow> int" where
  \<comment> \<open>the day within year \<open>y\<close> on which month \<open>m\<close> (0 to 11) begins\<close>
  "month_start y m =
     (let l = (if DaysInYear y = 366 then 1 else 0) in
      if m = 0 then 0
      else if m = 1 then 31
      else if m = 2 then 59 + l
      else if m = 3 then 90 + l
      else if m = 4 then 120 + l
      else if m = 5 then 151 + l
      else if m = 6 then 181 + l
      else if m = 7 then 212 + l
      else if m = 8 then 243 + l
      else if m = 9 then 273 + l
      else if m = 10 then 304 + l
      else 334 + l)"

definition MakeDay :: "int \<Rightarrow> int \<Rightarrow> int \<Rightarrow> int" where
  \<comment> \<open>\<open>MakeDay(year, month, date)\<close> with \<open>month\<close> counted from 0: the day number of the
      first of that month, plus \<open>date - 1\<close>\<close>
  "MakeDay year month date =
     (let ym = year + month div 12; mn = month mod 12 in
      DayFromYear ym + month_start ym mn + date - 1)"

definition MakeDate :: "int \<Rightarrow> int \<Rightarrow> int" where
  "MakeDate day time = day * msPerDay + time"

definition TimeClip :: "int \<Rightarrow> int option" where
  "TimeClip t = (if \<bar>t\<bar> > 8640000000000000 then None else Some t)"

text \<open>
  Two things are the host's and not the program's: the local time zone, and what
  \<open>Date.parse\<close> makes of a string outside the standard's date-time format (the standard
  lets an engine "fall back to any implementation-specific heuristics" there). Both are
  parameters of the model.
\<close>

record js_env =
  LocalTZA :: "int \<Rightarrow> int"
    \<comment> \<open>the offset of local time from UTC, in milliseconds, at a UTC time value\<close>
  parse_fallback :: "string \<Rightarrow> int option"
    \<comment> \<open>\<open>Date.parse\<close> on a string that is not a date of the standard's format\<close>

definition digits :: "string \<Rightarrow> bool" where
  "digits s = list_all is_digit s"

definition Date_parse :: "js_env \<Rightarrow> string \<Rightarrow> int option" where
  \<comment> \<open>\<open>Date.parse\<close>. The one format the program builds, \<open>YYYY-MM-DDT00:00:00Z\<close>, is
      decoded as the standard says when it names a date of the calendar; every other
      string is the engine's to decide.\<close>
  "Date_parse env s =
     (let year = take 4 s; month = take 2 (drop 5 s); day = take 2 (drop 8 s) in
      if length s = 20 \<and> digits year \<and> s ! 4 = CHR ''-'' \<and> digits month \<and>
         s ! 7 = CHR ''-'' \<and> digits day \<and> drop 10 s = ''T00:00:00Z'' \<and>
         valid_date (int (parseInt10 year)) (int (parseInt10 month)) (int (parseInt10 day))
      then Some (MakeDate
             (MakeDay (int (parseInt10 year)) (int (parseInt10 month) - 1)
                (int (parseInt10 day))) 0)
      else parse_fallback env s)"

definition new_Date :: "js_env \<Rightarrow> string \<Rightarrow> int option" where
  \<comment> \<open>\<open>new Date(s)\<close>: the time value of the object, \<open>None\<close> for an invalid date\<close>
  "new_Date env s = (case Date_parse env s of None \<Rightarrow> None | Some t \<Rightarrow> TimeClip t)"

definition LocalTime :: "js_env \<Rightarrow> int \<Rightarrow> int" where
  "LocalTime env t = t + LocalTZA env t"

definition getFullYear :: "js_env \<Rightarrow> int option \<Rightarrow> int option" where
  \<comment> \<open>the getters read the date in local time; on an invalid date they give \<open>NaN\<close>\<close>
  "getFullYear env date = map_option (\<lambda>t. YearFromTime (LocalTime env t)) date"

definition getMonth :: "js_env \<Rightarrow> int option \<Rightarrow> int option" where
  "getMonth env date = map_option (\<lambda>t. MonthFromTime (LocalTime env t)) date"

definition getDate :: "js_env \<Rightarrow> int option \<Rightarrow> int option" where
  "getDate env date = map_option (\<lambda>t. DateFromTime (LocalTime env t)) date"

section \<open>Parsing a German date\<close>

definition german_match :: "string \<Rightarrow> (string \<times> string \<times> string) option" where
  \<comment> \<open>\<open>s.match(/^(\d{1,2})\.(\d{1,2})\.(\d{2,4})$/)\<close>: the three groups, or \<open>None\<close>.
      Digits and dots are disjoint, so each group is a maximal run of digits.\<close>
  "german_match s =
     (let day = takeWhile is_digit s; r1 = dropWhile is_digit s in
      if length day < 1 \<or> 2 < length day then None
      else
        (case r1 of
           [] \<Rightarrow> None
         | c1 # r2 \<Rightarrow>
             if c1 \<noteq> CHR ''.'' then None
             else
               (let month = takeWhile is_digit r2; r3 = dropWhile is_digit r2 in
                if length month < 1 \<or> 2 < length month then None
                else
                  (case r3 of
                     [] \<Rightarrow> None
                   | c2 # r4 \<Rightarrow>
                       if c2 \<noteq> CHR ''.'' then None
                       else
                         (let year = takeWhile is_digit r4; r5 = dropWhile is_digit r4 in
                          if length year < 2 \<or> 4 < length year \<or> r5 \<noteq> [] then None
                          else Some (day, month, year))))))"

definition parseGermanDate :: "js_env \<Rightarrow> string option \<Rightarrow> string option" where
  "parseGermanDate env dateString =
     (case dateString of
        None \<Rightarrow> None
      | Some s \<Rightarrow>
          if s = [] then None
          else
            (case german_match s of
               None \<Rightarrow> None
             | Some (day0, month0, year0) \<Rightarrow>
                 (let day = padStart2 day0;
                      month = padStart2 month0;
                      year = (if length year0 = 2 then ''20'' @ year0 else year0);
                      date = new_Date env (year @ ''-'' @ month @ ''-'' @ day @ ''T00:00:00Z'')
                  in
                    if getFullYear env date \<noteq> Some (int (parseInt10 year)) \<or>
                       map_option (\<lambda>m. m + 1) (getMonth env date) \<noteq> Some (int (parseInt10 month)) \<or>
                       getDate env date \<noteq> Some (int (parseInt10 day))
                    then None
                    else Some (year @ ''-'' @ month @ ''-'' @ day))))"

definition expand_year :: "string \<Rightarrow> string" where
  \<comment> \<open>the year after \<open>if (year.length === 2) year = `20${year}`\<close>\<close>
  "expand_year y = (if length y = 2 then ''20'' @ y else y)"

definition iso_date :: "string \<Rightarrow> bool" where
  \<comment> \<open>a valid calendar date written \<open>YYYY-MM-DD\<close>\<close>
  "iso_date d =
     (length d = 10 \<and> digits (take 4 d) \<and> d ! 4 = CHR ''-'' \<and> digits (take 2 (drop 5 d)) \<and>
      d ! 7 = CHR ''-'' \<and> digits (take 2 (drop 8 d)) \<and>
      valid_date (int (parseInt10 (take 4 d))) (int (parseInt10 (take 2 (drop 5 d))))
        (int (parseInt10 (take 2 (drop 8 d)))))"

definition midnight_utc :: "string \<Rightarrow> int" where
  \<comment> \<open>the time value of \<open>YYYY-MM-DDT00:00:00Z\<close>\<close>
  "midnight_utc d =
     MakeDate (MakeDay (int (parseInt10 (take 4 d))) (int (parseInt10 (take 2 (drop 5 d))) - 1)
       (int (parseInt10 (take 2 (drop 8 d))))) 0"

text \<open>A host west of UTC, for the concrete runs below.\<close>

definition env_utc_minus_5 :: js_env where
  \<comment> \<open>a host five hours west of UTC whose engine rejects what the standard does not define\<close>
  "env_utc_minus_5 = \<lparr>LocalTZA = (\<lambda>_. - 18000000), parse_fallback = (\<lambda>_. None)\<rparr>"

section \<open>Records and the CSV export\<close>

record Entry =
  vendor :: string
  invoiceNumber :: string
  invoiceDate :: "string option"
  totalAmount :: string
  imageName :: string
  capturedAt :: string

definition js_or :: "string \<Rightarrow> string \<Rightarrow> string" where
  \<comment> \<open>\<open>a || b\<close> on strings: the empty string is falsy\<close>
  "js_or a b = (if a = [] then b else a)"

definition escapeCell :: "string \<Rightarrow> string" where
  \<comment> \<open>\<open>`"${value.replace(/"/g, '""')}"`\<close>\<close>
  "escapeCell v = [CHR 0x22] @ replace_all (CHR 0x22) [CHR 0x22, CHR 0x22] v @ [CHR 0x22]"

definition entriesToCSV :: "Entry list \<Rightarrow> string" where
  "entriesToCSV entries =
     (let header = [''Lieferant'', ''Rechnungsnummer'', ''Datum'', ''Betrag''];
          rows = map (\<lambda>entry.
                   [js_or (vendor entry) [],
                    js_or (invoiceNumber entry) [],
                    formatDate (invoiceDate entry),
                    replace_first CHR ''.'' '','' (totalAmount entry)]) entries;
          csvLines = map (\<lambda>row. join '';'' (map escapeCell row)) (header # rows)
      in join [CHR 0x0A] csvLines)"

text \<open>The same text, said the way the specification describes it.\<close>

definition quote_cell :: "string \<Rightarrow> string" where
  \<comment> \<open>the cell between double quotes, each double quote inside written twice\<close>
  "quote_cell v = CHR 0x22 # concat (map (\<lambda>c. if c = CHR 0x22 then [c, c] else [c]) v) @ [CHR 0x22]"

definition comma_amount :: "string \<Rightarrow> string" where
  \<comment> \<open>the amount with its decimal point, the first dot, turned into a comma\<close>
  "comma_amount a =
     (if CHR ''.'' \<in> set a
      then takeWhile (\<lambda>c. c \<noteq> CHR ''.'') a @ '','' @ tl (dropWhile (\<lambda>c. c \<noteq> CHR ''.'') a)
      else a)"

definition csv_header :: string where
  "csv_header = quote_cell ''Lieferant'' @ '';'' @ quote_cell ''Rechnungsnummer'' @ '';'' @
     quote_cell ''Datum'' @ '';'' @ quote_cell ''Betrag''"

definition csv_row :: "Entry \<Rightarrow> string" where
  "csv_row e = quote_cell (vendor e) @ '';'' @ quote_cell (invoiceNumber e) @ '';'' @
     quote_cell (formatDate (invoiceDate e)) @ '';'' @ quote_cell (comma_amount (totalAmount e))"

definition csv_text :: "Entry list \<Rightarrow> string" where
  \<comment> \<open>the header row, then one row per entry in order, each after a line feed\<close>
  "csv_text es = csv_header @ concat (map (\<lambda>e. CHR 0x0A # csv_row e) es)"

definition dq :: string where
  \<comment> \<open>one double quote\<close>
  "dq = [CHR 0x22]"

definition sample_entry :: Entry where
  "sample_entry = \<lparr>vendor = ''ACME '' @ dq @ ''Nord'' @ dq, invoiceNumber = ''INV-1'',
     invoiceDate = Some ''2024-03-01'', totalAmount = ''1234.50'', imageName = ''a.jpg'',
     capturedAt = ''2024-03-02T10:00:00.000Z''\<rparr>"

section \<open>The upload log\<close>

datatype upload_status = Pending | Success | Failed

text \<open>
  The status \<open>"error"\<close> is the constructor \<open>Failed\<close>. The field \<open>id\<close> is written
  \<open>id'\<close>. An optional field of the partial entry that \<open>updateUploadLog\<close> takes is an
  option, \<open>None\<close> when the field is absent.
\<close>

record UploadLogEntry =
  id' :: string
  fileName :: string
  displayName :: string
  status :: upload_status
  timestamp :: string
  message :: "string option"

record PartialLogEntry =
  p_id :: string
  p_fileName :: "string option"
  p_displayName :: "string option"
  p_status :: "upload_status option"
  p_timestamp :: "string option"
  p_message :: "string option"

definition nullish :: "'a option \<Rightarrow> 'a option \<Rightarrow> 'a option" where
  \<comment> \<open>\<open>a ?? b\<close>\<close>
  "nullish a b = (case a of Some x \<Rightarrow> Some x | None \<Rightarrow> b)"

definition or_default :: "'a option \<Rightarrow> 'a \<Rightarrow> 'a" where
  \<comment> \<open>\<open>a ?? d\<close> with a default that is always there\<close>
  "or_default a d = (case a of Some x \<Rightarrow> x | None \<Rightarrow> d)"

definition merged_entry :: "string \<Rightarrow> PartialLogEntry \<Rightarrow> UploadLogEntry list \<Rightarrow> UploadLogEntry" where
  \<comment> \<open>the entry \<open>next\<close> of \<open>updateUploadLog\<close>; \<open>now\<close> is \<open>new Date().toISOString()\<close>\<close>
  "merged_entry now entry prev =
     (let existing = find (\<lambda>item. id' item = p_id entry) prev in
      \<lparr>id' = p_id entry,
       fileName = or_default (nullish (p_fileName entry) (map_option fileName existing)) [],
       displayName =
         or_default
           (nullish (p_displayName entry)
              (nullish (map_option displayName existing)
                 (nullish (p_fileName entry) (map_option fileName existing)))) [],
       status = or_default (nullish (p_status entry) (map_option status existing)) Pending,
       timestamp = or_default (nullish (p_timestamp entry) (map_option timestamp existing)) now,
       message = nullish (p_message entry) (Option.bind existing message)\<rparr>)"

definition updateUploadLog :: "string \<Rightarrow> PartialLogEntry \<Rightarrow> UploadLogEntry list \<Rightarrow> UploadLogEntry list" where
  "updateUploadLog now entry prev =
     (let next = merged_entry now entry prev;
          filtered = filter (\<lambda>item. id' item \<noteq> p_id entry) prev
      in take 5 (next # filtered))"

text \<open>
  \<open>String.prototype.trim\<close> removes, from both ends, the characters of the standard's
  \<open>WhiteSpace\<close> and \<open>LineTerminator\<close>: tab, line feed, vertical tab, form feed, carriage
  return, space, U+00A0, U+1680, U+2000 to U+200A, U+2028, U+2029, U+202F, U+205F, U+3000 and
  U+FEFF. Each is listed below by its UTF-8 bytes.
\<close>

definition white_space :: "string list" where
  "white_space =
     [[CHR 0x09], [CHR 0x0A], [CHR 0x0B], [CHR 0x0C], [CHR 0x0D], [CHR 0x20],
      [CHR 0xC2, CHR 0xA0], [CHR 0xE1, CHR 0x9A, CHR 0x80],
      [CHR 0xE2, CHR 0x80, CHR 0x80], [CHR 0xE2, CHR 0x80, CHR 0x81],
      [CHR 0xE2, CHR 0x80, CHR 0x82], [CHR 0xE2, CHR 0x80, CHR 0x83],
      [CHR 0xE2, CHR 0x80, CHR 0x84], [CHR 0xE2, CHR 0x80, CHR 0x85],
      [CHR 0xE2, CHR 0x80, CHR 0x86], [CHR 0xE2, CHR 0x80, CHR 0x87],
      [CHR 0xE2, CHR 0x80, CHR 0x88], [CHR 0xE2, CHR 0x80, CHR 0x89],
      [CHR 0xE2, CHR 0x80, CHR 0x8A], [CHR 0xE2, CHR 0x80, CHR 0xA8],
      [CHR 0xE2, CHR 0x80, CHR 0xA9], [CHR 0xE2, CHR 0x80, CHR 0xAF],
      [CHR 0xE2, CHR 0x81, CHR 0x9F], [CHR 0xE3, CHR 0x80, CHR 0x80],
      [CHR 0xEF, CHR 0xBB, CHR 0xBF]]"

definition leading_space :: "string \<Rightarrow> string option" where
  \<comment> \<open>the white space character the string starts with, if any\<close>
  "leading_space s = find (\<lambda>w. starts_with s w) white_space"

definition trailing_space :: "string \<Rightarrow> string option" where
  \<comment> \<open>the white space character the string ends with, if any\<close>
  "trailing_space s = find (\<lambda>w. starts_with (rev s) (rev w)) white_space"

lemma white_space_nonempty: "w \<in> set white_space \<Longrightarrow> w \<noteq> []"
  by (auto simp: white_space_def)

lemma starts_with_length: "starts_with s w \<Longrightarrow> length w \<le> length s"
  by (induction s w rule: starts_with.induct) auto

lemma leading_space_shorter:
  "leading_space s = Some w \<Longrightarrow> length s - length w < length s"
proof -
  assume a: "leading_space s = Some w"
  then have "w \<in> set white_space" "starts_with s w"
    by (auto simp: leading_space_def find_Some_iff)
  then have "w \<noteq> []" "length w \<le> length s"
    using white_space_nonempty starts_with_length by auto
  then show ?thesis by (cases w) auto
qed

lemma trailing_space_shorter:
  "trailing_space s = Some w \<Longrightarrow> length s - length w < length s"
proof -
  assume a: "trailing_space s = Some w"
  then have "w \<in> set white_space" "starts_with (rev s) (rev w)"
    by (auto simp: trailing_space_def find_Some_iff)
  then have "w \<noteq> []" "length w \<le> length s"
    using white_space_nonempty starts_with_length [of "rev s" "rev w"] by auto
  then show ?thesis by (cases w) auto
qed

function trimStart :: "string \<Rightarrow> string" where
  "trimStart s =
     (case leading_space s of None \<Rightarrow> s | Some w \<Rightarrow> trimStart (drop (length w) s))"
  by pat_completeness auto
termination
  by (relation "measure length") (simp_all add: leading_space_shorter)

function trimEnd :: "string \<Rightarrow> string" where
  "trimEnd s =
     (case trailing_space s of None \<Rightarrow> s
      | Some w \<Rightarrow> trimEnd (take (length s - length w) s))"
  by pat_completeness auto
termination
  by (relation "measure length") (simp_all add: trailing_space_shorter)

declare trimStart.simps [simp del] trimEnd.simps [simp del]

definition trim :: "string \<Rightarrow> string" where
  \<comment> \<open>\<open>s.trim()\<close>\<close>
  "trim s = trimEnd (trimStart s)"

definition rename_prompt :: string where
  \<comment> \<open>\<open>"Neuer Name f\"ur den Upload"\<close>, the u umlaut in UTF-8\<close>
  "rename_prompt = ''Neuer Name f'' @ [CHR 0xC3, CHR 0xBC] @ ''r den Upload''"

definition handleRenameUploadLog ::
  "(string \<Rightarrow> string \<Rightarrow> string option) \<Rightarrow> string \<Rightarrow> UploadLogEntry list \<Rightarrow> UploadLogEntry list" where
  \<comment> \<open>\<open>prompt\<close> is \<open>window.prompt\<close>: the user's answer, \<open>None\<close> when cancelled\<close>
  "handleRenameUploadLog prompt i prev =
     (case find (\<lambda>item. id' item = i) prev of
        None \<Rightarrow> prev
      | Some target \<Rightarrow>
          (let currentName = trim (js_or (displayName target) (js_or (fileName target) [])) in
           case prompt rename_prompt currentName of
             None \<Rightarrow> prev
           | Some nextName \<Rightarrow>
               (let trimmed = trim nextName in
                if trimmed = [] then prev
                else map (\<lambda>item. if id' item = i then item\<lparr>displayName := trimmed\<rparr> else item) prev)))"

definition handleRemoveUploadLog :: "string \<Rightarrow> UploadLogEntry list \<Rightarrow> UploadLogEntry list" where
  "handleRemoveUploadLog i prev = filter (\<lambda>item. id' item \<noteq> i) prev"

datatype log_action =
    Upsert string PartialLogEntry
  | Rename "string \<Rightarrow> string \<Rightarrow> string option" string
  | Remove string

fun log_step :: "UploadLogEntry list \<Rightarrow> log_action \<Rightarrow> UploadLogEntry list" where
  "log_step l (Upsert now entry) = updateUploadLog now entry l"
| "log_step l (Rename prompt i) = handleRenameUploadLog prompt i l"
| "log_step l (Remove i) = handleRemoveUploadLog i l"

definition run_log :: "log_action list \<Rightarrow> UploadLogEntry list" where
  \<comment> \<open>the log after a sequence of operations, from the empty log the application starts with\<close>
  "run_log acts = foldl log_step [] acts"

definition only_id :: "string \<Rightarrow> PartialLogEntry" where
  \<comment> \<open>the partial entry \<open>{id: i}\<close>\<close>
  "only_id i = \<lparr>p_id = i, p_fileName = None, p_displayName = None, p_status = None,
     p_timestamp = None, p_message = None\<rparr>"

section \<open>File sizes\<close>

fun show_nat :: "nat \<Rightarrow> string" where
  \<comment> \<open>\<open>String(n)\<close> for a natural number: its decimal digits\<close>
  "show_nat n =
     (if n < 10 then [''0123456789'' ! n] else show_nat (n div 10) @ [''0123456789'' ! (n mod 10)])"

declare show_nat.simps [simp del]

function size_unit :: "nat \<Rightarrow> nat \<Rightarrow> nat" where
  \<comment> \<open>the loop of \<open>formatFileSize\<close>: \<open>size\<close> is \<open>bytes / 1024 ^ unitIndex\<close>, kept as
      the two numbers, so the test \<open>size >= 1024\<close> is \<open>bytes >= 1024 * 1024 ^ unitIndex\<close>\<close>
  "size_unit bytes unitIndex =
     (if 1024 * 1024 ^ unitIndex \<le> bytes \<and> unitIndex < 4
      then size_unit bytes (unitIndex + 1) else unitIndex)"
  by pat_completeness auto
termination
proof (relation "measure (\<lambda>(bytes, unitIndex). 4 - unitIndex)")
  show "wf (measure (\<lambda>(bytes :: nat, unitIndex :: nat). 4 - unitIndex))" by (rule wf_measure)
next
  fix bytes unitIndex :: nat
  assume "1024 * 1024 ^ unitIndex \<le> bytes \<and> unitIndex < 4"
  then have "unitIndex < 4" by (rule conjunct2)
  then have "4 - (unitIndex + 1) < 4 - unitIndex" by linarith
  then show "((bytes, unitIndex + 1), (bytes, unitIndex)) \<in> measure (\<lambda>(bytes, unitIndex). 4 - unitIndex)"
    by (simp only: in_measure prod.case)
qed

declare size_unit.simps [simp del]

definition toFixed :: "nat \<Rightarrow> nat \<Rightarrow> nat \<Rightarrow> string" where
  \<comment> \<open>\<open>(num / den).toFixed(decimals)\<close> for \<open>decimals\<close> 0 or 1: the nearest number with
      that many decimals, the larger one on a tie\<close>
  "toFixed num den decimals =
     (if decimals = 0 then show_nat ((2 * num + den) div (2 * den))
      else (let n = (20 * num + den) div (2 * den)
            in show_nat (n div 10) @ ''.'' @ show_nat (n mod 10)))"

definition formatFileSize :: "nat \<Rightarrow> string" where
  \<comment> \<open>the size of a file is a whole number of bytes; dividing it by 1024 is exact in
      floating point, so the quotient is kept as a fraction\<close>
  "formatFileSize bytes =
     (if bytes \<le> 0 then ''0 B''
      else
        (let units = [''B'', ''KB'', ''MB'', ''GB'', ''TB''];
             unitIndex = size_unit bytes 0;
             den = 1024 ^ unitIndex;
             decimals = (if 10 * den \<le> bytes \<or> unitIndex = 0 then 0 else 1)
         in toFixed bytes den decimals @ '' '' @ units ! unitIndex))"

section \<open>The submission pipeline\<close>

text \<open>
  \<open>processFile\<close> is asynchronous; it is modelled as one run that takes the state of the
  application and returns the state after it, with what the network and the clock answer
  given by the host. The requests sent are kept in the state, so that "no request is
  issued" can be said.
\<close>

datatype ThemeId = Dark | Light

record Settings =
  webhookUrl :: string
  theme :: ThemeId

record File =
  file_name :: string
  file_type :: string
  file_size :: nat

datatype form_value = FileField File string | TextField string

record Request =
  req_url :: string
  req_method :: string
  req_body :: "(string \<times> form_value) list"

datatype thrown = JsError string | NonError
  \<comment> \<open>a thrown value: an \<open>Error\<close> with its message, or anything else\<close>

text \<open>
  The parsed response is read at the four fields the program looks at, each a string as
  the type \<open>Entry\<close> declares it; \<open>None\<close> is a field that is absent or nullish, and a
  payload that is no object has none.
\<close>

record Payload =
  pl_vendor :: "string option"
  pl_invoiceNumber :: "string option"
  pl_invoiceDate :: "string option"
  pl_totalAmount :: "string option"

record Response =
  resp_status :: nat
  resp_content_type :: "string option"
    \<comment> \<open>\<open>headers.get("content-type")\<close>\<close>
  resp_json :: "thrown + Payload"
    \<comment> \<open>what \<open>await response.json()\<close> gives\<close>
  resp_text :: "thrown + string"
    \<comment> \<open>what \<open>await response.text()\<close> gives\<close>

datatype fetch_result = Rejected thrown | Resolved Response

record Host =
  fetch :: "Request \<Rightarrow> fetch_result"
  JSON_parse :: "string \<Rightarrow> Payload option"
    \<comment> \<open>\<open>None\<close> when \<open>JSON.parse\<close> throws\<close>
  Date_now :: nat
  iso_started :: string
    \<comment> \<open>\<open>new Date().toISOString()\<close> when the pending entry is logged\<close>
  iso_captured :: string
    \<comment> \<open>the same when the new record is built\<close>
  iso_finished :: string
    \<comment> \<open>the same when the outcome is logged\<close>
  createObjectURL :: "File \<Rightarrow> string"

record AppState =
  settings :: Settings
  entries :: "Entry list"
  uploadLog :: "UploadLogEntry list"
  isLoading :: bool
  error :: "string option"
  lastResult :: "Entry option"
  lastPreviewUrl :: "string option"
  editingEntry :: "Entry option"
  requests :: "Request list"
    \<comment> \<open>every request sent so far, oldest first\<close>
  revoked :: "string list"
    \<comment> \<open>every object URL released so far\<close>

fun js_includes :: "string \<Rightarrow> string \<Rightarrow> bool" where
  \<comment> \<open>\<open>s.includes(sub)\<close>\<close>
  "js_includes [] sub = (sub = [])"
| "js_includes (x # xs) sub = (starts_with (x # xs) sub \<or> js_includes xs sub)"

definition response_ok :: "Response \<Rightarrow> bool" where
  \<comment> \<open>\<open>response.ok\<close>: a status from 200 to 299\<close>
  "response_ok r = (200 \<le> resp_status r \<and> resp_status r \<le> 299)"

definition no_webhook_message :: string where
  \<comment> \<open>\<open>"Kein Webhook hinterlegt. Bitte Einstellungen pr\"ufen."\<close>\<close>
  "no_webhook_message =
     ''Kein Webhook hinterlegt. Bitte Einstellungen pr'' @ [CHR 0xC3, CHR 0xBC] @ ''fen.''"

definition build_request :: "Settings \<Rightarrow> File \<Rightarrow> string \<Rightarrow> string \<Rightarrow> Request" where
  \<comment> \<open>the \<open>FormData\<close> and the arguments of \<open>fetch\<close>\<close>
  "build_request s file fileType fileSizeLabel =
     \<lparr>req_url = webhookUrl s, req_method = ''POST'',
      req_body =
        [(''file'', FileField file (file_name file)),
         (''fileName'', TextField (file_name file)),
         (''mimeType'', TextField fileType),
         (''fileSize'', TextField (show_nat (file_size file))),
         (''fileSizeReadable'', TextField fileSizeLabel)]\<rparr>"

definition content_type_of :: "Response \<Rightarrow> string" where
  \<comment> \<open>\<open>response.headers.get("content-type") || ""\<close>\<close>
  "content_type_of response =
     (case resp_content_type response of None \<Rightarrow> [] | Some c \<Rightarrow> js_or c [])"

definition read_payload :: "Host \<Rightarrow> Request \<Rightarrow> thrown + Payload" where
  \<comment> \<open>the \<open>try\<close> block up to the parsed payload: \<open>Inl\<close> is what it throws\<close>
  "read_payload host request =
     (case fetch host request of
        Rejected e \<Rightarrow> Inl e
      | Resolved response \<Rightarrow>
          if \<not> response_ok response
          then Inl (JsError (''Webhook antwortete mit Status '' @ show_nat (resp_status response)))
          else
            (let contentType = content_type_of response
             in if js_includes contentType ''application/json'' then resp_json response
                else
                  (case resp_text response of
                     Inl e \<Rightarrow> Inl e
                   | Inr text \<Rightarrow>
                       if text = [] then Inl (JsError ''Server lieferte eine leere Antwort.'')
                       else
                         (case JSON_parse host text of
                            None \<Rightarrow> Inl (JsError ''Antwort konnte nicht als JSON gelesen werden.'')
                          | Some payload \<Rightarrow> Inr payload))))"

definition error_message :: "thrown \<Rightarrow> string" where
  \<comment> \<open>\<open>uploadError instanceof Error ? uploadError.message : "Unbekannter Fehler"\<close>\<close>
  "error_message e = (case e of JsError m \<Rightarrow> m | NonError \<Rightarrow> ''Unbekannter Fehler'')"

definition log_id :: "Host \<Rightarrow> File \<Rightarrow> string" where
  \<comment> \<open>\<open>`${Date.now()}-${file.name}`\<close>\<close>
  "log_id host file = show_nat (Date_now host) @ ''-'' @ file_name file"

definition meta_label :: "File \<Rightarrow> string" where
  \<comment> \<open>\<open>`${fileType} | ${fileSizeLabel}`\<close>\<close>
  "meta_label file =
     js_or (file_type file) ''application/octet-stream'' @ '' | '' @ formatFileSize (file_size file)"

definition processFile :: "Host \<Rightarrow> File \<Rightarrow> AppState \<Rightarrow> AppState" where
  "processFile host file st =
     (if webhookUrl (settings st) = [] then st\<lparr>error := Some no_webhook_message\<rparr>
      else
        (let st1 = st\<lparr>isLoading := True, error := None\<rparr>;
             logId = log_id host file;
             fileType = js_or (file_type file) ''application/octet-stream'';
             fileSizeLabel = formatFileSize (file_size file);
             metaLabel = fileType @ '' | '' @ fileSizeLabel;
             st2 = st1\<lparr>uploadLog :=
                     updateUploadLog (iso_started host)
                       \<lparr>p_id = logId, p_fileName = Some (file_name file),
                        p_displayName = Some (file_name file), p_status = Some Pending,
                        p_timestamp = Some (iso_started host),
                        p_message = Some (''Upload gestartet ('' @ metaLabel @ '')'')\<rparr>
                       (uploadLog st1)\<rparr>;
             request = build_request (settings st) file fileType fileSizeLabel;
             st3 = st2\<lparr>requests := requests st2 @ [request]\<rparr>;
             st4 =
               (case read_payload host request of
                  Inr payload \<Rightarrow>
                    (let newEntry =
                           \<lparr>vendor = js_or (or_default (pl_vendor payload) []) [],
                            invoiceNumber = js_or (or_default (pl_invoiceNumber payload) []) [],
                            invoiceDate = Some (js_or (or_default (pl_invoiceDate payload) []) []),
                            totalAmount = js_or (or_default (pl_totalAmount payload) []) ''0'',
                            imageName = file_name file,
                            capturedAt = iso_captured host\<rparr>
                     in st3\<lparr>entries := newEntry # entries st3,
                            lastResult := Some newEntry,
                            revoked := (case lastPreviewUrl st of
                                          None \<Rightarrow> revoked st3
                                        | Some u \<Rightarrow> if u = [] then revoked st3 else revoked st3 @ [u]),
                            lastPreviewUrl := Some (createObjectURL host file),
                            uploadLog :=
                              updateUploadLog (iso_finished host)
                                \<lparr>p_id = logId, p_fileName = Some (file_name file),
                                 p_displayName = None, p_status = Some Success,
                                 p_timestamp = Some (iso_finished host),
                                 p_message = Some (''Scan erfolgreich verarbeitet ('' @ metaLabel @ '')'')\<rparr>
                                (uploadLog st3)\<rparr>)
                | Inl uploadError \<Rightarrow>
                    (let errorMessage = error_message uploadError
                     in st3\<lparr>error := Some errorMessage,
                            uploadLog :=
                              updateUploadLog (iso_finished host)
                                \<lparr>p_id = logId, p_fileName = Some (file_name file),
                                 p_displayName = None, p_status = Some Failed,
                                 p_timestamp = Some (iso_finished host),
                                 p_message = Some (metaLabel @ '' | '' @ errorMessage)\<rparr>
                                (uploadLog st3)\<rparr>))
         in st4\<lparr>isLoading := False\<rparr>))"


definition submit_request :: "File \<Rightarrow> AppState \<Rightarrow> Request" where
  \<comment> \<open>the request \<open>processFile\<close> sends for a file\<close>
  "submit_request file st =
     build_request (settings st) file (js_or (file_type file) ''application/octet-stream'')
       (formatFileSize (file_size file))"

definition pending_entry :: "Host \<Rightarrow> File \<Rightarrow> PartialLogEntry" where
  \<comment> \<open>the entry logged when the upload starts\<close>
  "pending_entry host file =
     \<lparr>p_id = log_id host file, p_fileName = Some (file_name file),
      p_displayName = Some (file_name file), p_status = Some Pending,
      p_timestamp = Some (iso_started host),
      p_message = Some (''Upload gestartet ('' @ meta_label file @ '')'')\<rparr>"

definition sample_file :: File where
  "sample_file = \<lparr>file_name = ''beleg.jpg'', file_type = ''image/jpeg'', file_size = 10240\<rparr>"

definition sample_state :: AppState where
  "sample_state =
     \<lparr>settings = \<lparr>webhookUrl = ''https://x.com/hook'', theme = Dark\<rparr>,
      entries = [sample_entry], uploadLog = [], isLoading = False, error = None,
      lastResult = None, lastPreviewUrl = None, editingEntry = None, requests = [],
      revoked = []\<rparr>"

definition host_500 :: Host where
  \<comment> \<open>a host whose webhook answers every request with status 500 and an empty body\<close>
  "host_500 =
     \<lparr>fetch = (\<lambda>_. Resolved \<lparr>resp_status = 500, resp_content_type = Some ''text/plain'',
                  resp_json = Inl (JsError ''Unexpected end of JSON input''), resp_text = Inr []\<rparr>),
      JSON_parse = (\<lambda>_. None), Date_now = 1709373600000,
      iso_started = ''2024-03-02T10:00:00.000Z'', iso_captured = ''2024-03-02T10:00:01.000Z'',
      iso_finished = ''2024-03-02T10:00:01.000Z'', createObjectURL = (\<lambda>_. ''blob:1'')\<rparr>"

definition host_bad_json :: Host where
  \<comment> \<open>a host whose webhook answers with status 200, a JSON content type and an empty body,
      on which \<open>response.json()\<close> fails\<close>
  "host_bad_json =
     \<lparr>fetch = (\<lambda>_. Resolved \<lparr>resp_status = 200,
                  resp_content_type = Some ''application/json; charset=utf-8'',
                  resp_json = Inl (JsError ''Unexpected end of JSON input''), resp_text = Inr []\<rparr>),
      JSON_parse = (\<lambda>_. None), Date_now = 1709373600000,
      iso_started = ''2024-03-02T10:00:00.000Z'', iso_captured = ''2024-03-02T10:00:01.000Z'',
      iso_finished = ''2024-03-02T10:00:01.000Z'', createObjectURL = (\<lambda>_. ''blob:1'')\<rparr>"

section \<open>Webhook URLs\<close>

text \<open>
  \<open>validateWebhookUrl\<close> asks the host's \<open>URL\<close> class. Of the URL standard's parser
  the model has the part that decides the scheme (stripping, then the states "scheme
  start" and "scheme"; there is no base URL, so an input without a scheme fails). Whether
  the rest of the input parses (authority, host, port) is the host's answer, the parameter
  \<open>rest_ok\<close>, given the scheme and the text after its colon.
\<close>

definition is_c0_or_space :: "char \<Rightarrow> bool" where
  "is_c0_or_space c = (of_char c \<le> (32::nat))"

definition is_tab_or_newline :: "char \<Rightarrow> bool" where
  "is_tab_or_newline c = (c = CHR 0x09 \<or> c = CHR 0x0A \<or> c = CHR 0x0D)"

definition url_preprocess :: "string \<Rightarrow> string" where
  \<comment> \<open>leading and trailing C0 controls and spaces go, then every tab and newline\<close>
  "url_preprocess s =
     filter (\<lambda>c. \<not> is_tab_or_newline c)
       (rev (dropWhile is_c0_or_space (rev (dropWhile is_c0_or_space s))))"

definition lower_letters :: string where
  "lower_letters = ''abcdefghijklmnopqrstuvwxyz''"

definition upper_letters :: string where
  "upper_letters = ''ABCDEFGHIJKLMNOPQRSTUVWXYZ''"

definition is_ascii_alpha :: "char \<Rightarrow> bool" where
  "is_ascii_alpha c = (c \<in> set (lower_letters @ upper_letters))"

definition to_lower :: "char \<Rightarrow> char" where
  "to_lower c = (case map_of (zip upper_letters lower_letters) c of Some l \<Rightarrow> l | None \<Rightarrow> c)"

definition is_scheme_char :: "char \<Rightarrow> bool" where
  \<comment> \<open>an ASCII letter or digit, or one of \<open>+ - .\<close>\<close>
  "is_scheme_char c = (is_ascii_alpha c \<or> is_digit c \<or> c = CHR ''+'' \<or> c = CHR ''-'' \<or> c = CHR ''.'')"

fun scheme_state :: "string \<Rightarrow> string \<Rightarrow> (string \<times> string) option" where
  \<comment> \<open>the state "scheme": the buffer so far and the input left; the result is the scheme
      and the text after its colon\<close>
  "scheme_state buffer [] = None"
| "scheme_state buffer (c # cs) =
     (if is_scheme_char c then scheme_state (buffer @ [to_lower c]) cs
      else if c = CHR '':'' then Some (buffer, cs)
      else None)"

definition url_scheme :: "string \<Rightarrow> (string \<times> string) option" where
  \<comment> \<open>the state "scheme start": a scheme begins with a letter\<close>
  "url_scheme s =
     (case s of
        [] \<Rightarrow> None
      | c # cs \<Rightarrow> if is_ascii_alpha c then scheme_state [to_lower c] cs else None)"

record URL =
  protocol :: string

definition new_URL :: "(string \<Rightarrow> string \<Rightarrow> bool) \<Rightarrow> string \<Rightarrow> URL option" where
  \<comment> \<open>\<open>new URL(url)\<close>: \<open>None\<close> when it throws\<close>
  "new_URL rest_ok url =
     (case url_scheme (url_preprocess url) of
        None \<Rightarrow> None
      | Some (scheme, rest) \<Rightarrow>
          if rest_ok scheme rest then Some \<lparr>protocol = scheme @ '':''\<rparr> else None)"

definition validateWebhookUrl :: "(string \<Rightarrow> string \<Rightarrow> bool) \<Rightarrow> string \<Rightarrow> bool" where
  "validateWebhookUrl rest_ok url =
     (if url = [] then False
      else
        (case new_URL rest_ok url of
           None \<Rightarrow> False
         | Some parsed \<Rightarrow> protocol parsed = ''https:'' \<or> protocol parsed = ''http:''))"

section \<open>Editing a record\<close>

record Draft =
  d_vendor :: string
  d_invoiceNumber :: string
  d_invoiceDate :: string
  d_totalAmount :: string

datatype save_result = Blocked string | Saved Entry
  \<comment> \<open>\<open>handleSave\<close> either sets the date error and returns, or calls \<open>onSave\<close>\<close>

definition date_error_message :: string where
  "date_error_message = ''Bitte Datum als TT.MM.JJJJ eintragen''"

definition falsy :: "string option \<Rightarrow> bool" where
  \<comment> \<open>\<open>!x\<close> for a string or null\<close>
  "falsy x = (x = None \<or> x = Some [])"

definition handleSave :: "js_env \<Rightarrow> Entry \<Rightarrow> Draft \<Rightarrow> save_result" where
  \<comment> \<open>the same in the table row and in the edit sheet\<close>
  "handleSave env entry draft =
     (let parsedDate =
            (if d_invoiceDate draft \<noteq> [] then parseGermanDate env (Some (d_invoiceDate draft))
             else None)
      in if d_invoiceDate draft \<noteq> [] \<and> falsy parsedDate then Blocked date_error_message
         else Saved (entry\<lparr>vendor := d_vendor draft,
                           invoiceNumber := d_invoiceNumber draft,
                           invoiceDate := parsedDate,
                           totalAmount := d_totalAmount draft\<rparr>))"

definition spread :: "Entry \<Rightarrow> Entry \<Rightarrow> Entry" where
  \<comment> \<open>\<open>{ ...a, ...b }\<close>: \<open>b\<close> has every field of an entry, so each is taken from \<open>b\<close>\<close>
  "spread a b =
     a\<lparr>vendor := vendor b, invoiceNumber := invoiceNumber b, invoiceDate := invoiceDate b,
       totalAmount := totalAmount b, imageName := imageName b, capturedAt := capturedAt b\<rparr>"

definition handleUpdateEntry :: "Entry \<Rightarrow> AppState \<Rightarrow> AppState" where
  "handleUpdateEntry updatedEntry st =
     st\<lparr>entries :=
          map (\<lambda>entry. if capturedAt entry = capturedAt updatedEntry
                        then spread entry updatedEntry else entry) (entries st),
        lastResult :=
          (case lastResult st of
             None \<Rightarrow> None
           | Some prev \<Rightarrow>
               if capturedAt prev = capturedAt updatedEntry then Some (spread prev updatedEntry)
               else Some prev),
        editingEntry := None\<rparr>"

definition edit_entry :: "js_env \<Rightarrow> Entry \<Rightarrow> Draft \<Rightarrow> AppState \<Rightarrow> AppState" where
  \<comment> \<open>a user edit: \<open>handleSave\<close> with \<open>onSave = handleUpdateEntry\<close>\<close>
  "edit_entry env entry draft st =
     (case handleSave env entry draft of
        Blocked _ \<Rightarrow> st
      | Saved updatedEntry \<Rightarrow> handleUpdateEntry updatedEntry st)"

definition edited :: "js_env \<Rightarrow> Entry \<Rightarrow> Draft \<Rightarrow> Entry" where
  \<comment> \<open>the entry with the four fields of the draft, the date parsed, no date for an empty field\<close>
  "edited env entry draft =
     entry\<lparr>vendor := d_vendor draft,
           invoiceNumber := d_invoiceNumber draft,
           invoiceDate := (if d_invoiceDate draft = [] then None
                           else parseGermanDate env (Some (d_invoiceDate draft))),
           totalAmount := d_totalAmount draft\<rparr>"

definition env_utc_plus_1 :: js_env where
  \<comment> \<open>a host one hour east of UTC whose engine rejects what the standard does not define\<close>
  "env_utc_plus_1 = \<lparr>LocalTZA = (\<lambda>_. 3600000), parse_fallback = (\<lambda>_. None)\<rparr>"

definition other_entry :: Entry where
  "other_entry = \<lparr>vendor = ''Beta'', invoiceNumber = ''B-7'', invoiceDate = None,
     totalAmount = ''5'', imageName = ''b.pdf'', capturedAt = ''2024-03-03T09:00:00.000Z''\<rparr>"

definition sample_draft :: Draft where
  "sample_draft = \<lparr>d_vendor = ''ACME GmbH'', d_invoiceNumber = ''INV-2'',
     d_invoiceDate = ''2.3.24'', d_totalAmount = ''20,00''\<rparr>"

section \<open>Properties of the calendar\<close>

lemma DayFromYear_mono: "a \<le> b \<Longrightarrow> DayFromYear a \<le> DayFromYear b"
proof (induction b rule: int_ge_induct)
  case base
  show ?case by simp
next
  case (step i)
  then show ?case using DayFromYear_less_Suc [of i] by simp
qed

lemma year_down_spec: "DayFromYear (year_down d y) \<le> d"
proof (induction d y rule: year_down.induct)
  case (1 d y)
  show ?case
  proof (cases "d < DayFromYear y")
    case True
    with "1.IH" show ?thesis by (subst year_down.simps) simp
  next
    case False
    then show ?thesis by (subst year_down.simps) simp
  qed
qed

lemma year_up_spec:
  "DayFromYear y \<le> d \<Longrightarrow>
   DayFromYear (year_up d y) \<le> d \<and> d < DayFromYear (year_up d y + 1)"
proof (induction d y rule: year_up.induct)
  case (1 d y)
  show ?case
  proof (cases "DayFromYear (y + 1) \<le> d")
    case True
    with "1.IH" show ?thesis by (subst (1 2) year_up.simps) simp
  next
    case False
    with "1.prems" show ?thesis by (subst (1 2) year_up.simps) simp
  qed
qed

lemma YearFromTime_bounds:
  "DayFromYear (YearFromTime t) \<le> Day t \<and> Day t < DayFromYear (YearFromTime t + 1)"
  unfolding YearFromTime_def by (rule year_up_spec) (rule year_down_spec)

lemma year_unique:
  assumes "DayFromYear y \<le> d" "d < DayFromYear (y + 1)"
      and "DayFromYear y' \<le> d" "d < DayFromYear (y' + 1)"
  shows "y = y'"
proof (rule ccontr)
  assume "y \<noteq> y'"
  then consider "y + 1 \<le> y'" | "y' + 1 \<le> y" by linarith
  then show False
  proof cases
    case 1
    from DayFromYear_mono [OF 1] assms show False by linarith
  next
    case 2
    from DayFromYear_mono [OF 2] assms show False by linarith
  qed
qed

lemma YearFromTime_eq:
  "DayFromYear y \<le> Day t \<Longrightarrow> Day t < DayFromYear (y + 1) \<Longrightarrow> YearFromTime t = y"
  using YearFromTime_bounds [of t] year_unique by blast

lemma InLeapYear_cases: "InLeapYear t = 0 \<or> InLeapYear t = 1"
  by (simp add: InLeapYear_def)

lemma DaysInYear_leap: "DaysInYear (YearFromTime t) = 365 + InLeapYear t"
  by (auto simp: InLeapYear_def DaysInYear_def)

lemma DayWithinYear_bounds: "0 \<le> DayWithinYear t \<and> DayWithinYear t < 365 + InLeapYear t"
  using YearFromTime_bounds [of t]
  by (simp add: DayWithinYear_def DayFromYear_Suc DaysInYear_leap)

lemma MonthFromTime_range: "0 \<le> MonthFromTime t \<and> MonthFromTime t \<le> 11"
  by (simp add: MonthFromTime_def Let_def)


lemma table_valid:
  fixes d l :: int
  assumes "0 \<le> d" "d < 365 + l" "l = 0 \<or> l = 1"
  defines "m \<equiv> (if d < 31 then 0
      else if d < 59 + l then 1
      else if d < 90 + l then 2
      else if d < 120 + l then 3
      else if d < 151 + l then 4
      else if d < 181 + l then 5
      else if d < 212 + l then 6
      else if d < 243 + l then 7
      else if d < 273 + l then 8
      else if d < 304 + l then 9
      else if d < 334 + l then 10
      else (11::int))"
  defines "dt \<equiv> (if m = 0 then d + 1
      else if m = 1 then d - 30
      else if m = 2 then d - 58 - l
      else if m = 3 then d - 89 - l
      else if m = 4 then d - 119 - l
      else if m = 5 then d - 150 - l
      else if m = 6 then d - 180 - l
      else if m = 7 then d - 211 - l
      else if m = 8 then d - 242 - l
      else if m = 9 then d - 272 - l
      else if m = 10 then d - 303 - l
      else d - 333 - l)"
  defines "ms \<equiv> (if m = 0 then 0
      else if m = 1 then 31
      else if m = 2 then 59 + l
      else if m = 3 then 90 + l
      else if m = 4 then 120 + l
      else if m = 5 then 151 + l
      else if m = 6 then 181 + l
      else if m = 7 then 212 + l
      else if m = 8 then 243 + l
      else if m = 9 then 273 + l
      else if m = 10 then 304 + l
      else 334 + l)"
  defines "dim \<equiv> (if m + 1 = 2 then (if l = 1 then 29 else 28)
      else if m + 1 = 4 \<or> m + 1 = 6 \<or> m + 1 = 9 \<or> m + 1 = 11 then 30
      else (31::int))"
  shows "1 \<le> dt \<and> dt \<le> dim \<and> ms + dt - 1 = d \<and> 0 \<le> m \<and> m \<le> 11"
  using assms(1-3) unfolding dim_def ms_def dt_def m_def
  by (auto split: if_splits)

lemma leap_flag: "(if DaysInYear (YearFromTime t) = 366 then 1 else 0) = InLeapYear t"
  by (simp add: InLeapYear_def)

lemma getters_valid:
  "valid_date (YearFromTime t) (MonthFromTime t + 1) (DateFromTime t) \<and>
   MakeDay (YearFromTime t) (MonthFromTime t) (DateFromTime t) = Day t"
proof -
  note tv = table_valid [OF conjunct1 [OF DayWithinYear_bounds [of t]]
      conjunct2 [OF DayWithinYear_bounds [of t]] InLeapYear_cases [of t]]
  have l: "DaysInYear (YearFromTime t) = 366 \<longleftrightarrow> InLeapYear t = 1"
    by (simp add: InLeapYear_def)
  have r: "0 \<le> MonthFromTime t" "MonthFromTime t \<le> 11"
    using MonthFromTime_range [of t] by auto
  then have dm: "MonthFromTime t div 12 = 0" "MonthFromTime t mod 12 = MonthFromTime t"
    by auto
  have 1: "1 \<le> DateFromTime t \<and> DateFromTime t \<le> DaysInMonth (YearFromTime t) (MonthFromTime t + 1)"
    using tv unfolding DateFromTime_def MonthFromTime_def DaysInMonth_def Let_def l
    by (elim conjE) (intro conjI; assumption)
  have 2: "month_start (YearFromTime t) (MonthFromTime t) + DateFromTime t - 1 = DayWithinYear t"
    using tv unfolding DateFromTime_def MonthFromTime_def month_start_def Let_def leap_flag
    by (elim conjE) assumption
  show ?thesis
    using 1 2 r by (simp add: valid_date_def MakeDay_def dm DayWithinYear_def Let_def)
qed

lemma month_cases:
  fixes m :: int
  assumes "1 \<le> m" "m \<le> 12"
  shows "m = 1 \<or> m = 2 \<or> m = 3 \<or> m = 4 \<or> m = 5 \<or> m = 6 \<or> m = 7 \<or> m = 8 \<or> m = 9 \<or> m = 10 \<or>
         m = 11 \<or> m = 12"
  using assms by presburger

lemma civil_roundtrip:
  assumes v: "valid_date y m d" and t: "Day t = MakeDay y (m - 1) d"
  shows "YearFromTime t = y \<and> MonthFromTime t = m - 1 \<and> DateFromTime t = d"
proof -
  define l :: int where "l = (if DaysInYear y = 366 then 1 else 0)"
  have l01: "l = 0 \<or> l = 1" by (simp add: l_def)
  have lf: "(if DaysInYear y = 366 then 1 else 0) = l" by (simp add: l_def)
  have lb: "DaysInYear y = 366 \<longleftrightarrow> l = 1" by (simp add: l_def)
  have m: "1 \<le> m" "m \<le> 12" and d: "1 \<le> d" "d \<le> DaysInMonth y m"
    using v by (auto simp: valid_date_def)
  have dm: "(m - 1) div 12 = 0" "(m - 1) mod 12 = m - 1" using m by auto
  have day: "Day t = DayFromYear y + month_start y (m - 1) + d - 1"
    using t by (simp add: MakeDay_def dm Let_def)
  have diy: "DaysInYear y = 365 + l" by (auto simp: l_def DaysInYear_def)
  have rng: "0 \<le> month_start y (m - 1) + d - 1 \<and> month_start y (m - 1) + d - 1 < 365 + l"
    using month_cases [OF m] d l01 unfolding month_start_def DaysInMonth_def Let_def lf lb
    by (elim disjE; simp)
  have y: "YearFromTime t = y"
    by (rule YearFromTime_eq) (use day rng in \<open>auto simp: DayFromYear_Suc diy\<close>)
  have dwy: "DayWithinYear t = month_start y (m - 1) + d - 1"
    by (simp add: DayWithinYear_def y day)
  have il: "InLeapYear t = l" by (simp add: InLeapYear_def y l_def)
  have mo: "MonthFromTime t = m - 1"
    unfolding MonthFromTime_def Let_def dwy il
    using month_cases [OF m] d l01 unfolding month_start_def DaysInMonth_def Let_def lf lb
    by (elim disjE; simp)
  have "DateFromTime t = d"
    unfolding DateFromTime_def Let_def mo dwy il
    using month_cases [OF m] unfolding month_start_def Let_def lf
    by (elim disjE; simp)
  with y mo show ?thesis by simp
qed

section \<open>Properties of the string helpers\<close>

lemma split_go_no_sep:
  "sep \<notin> set s \<Longrightarrow> split_go sep cur s = [rev cur @ s]"
  by (induction s arbitrary: cur) auto

lemma split_go_append:
  "sep \<notin> set a \<Longrightarrow> split_go sep cur (a @ sep # b) = (rev cur @ a) # split_go sep [] b"
  by (induction a arbitrary: cur) auto

lemma split_go_hd:
  "hd (split_go sep cur s) = rev cur @ takeWhile (\<lambda>c. c \<noteq> sep) s \<and> split_go sep cur s \<noteq> []"
  by (induction s arbitrary: cur) auto

lemma split_char_hd:
  "\<exists>rest. split_char sep s = takeWhile (\<lambda>c. c \<noteq> sep) s # rest"
  using split_go_hd [of sep "[]" s] by (cases "split_go sep [] s") (auto simp: split_char_def)

lemma split_char_cons:
  "sep \<notin> set a \<Longrightarrow> split_char sep (a @ sep # b) = a # split_char sep b"
  by (simp add: split_char_def split_go_append)

lemma not_digit_seps [simp]:
  "\<not> is_digit CHR ''-''" "\<not> is_digit CHR ''T''" "\<not> is_digit CHR ''.''"
  by (simp_all add: is_digit_def)

lemma is_digit_not_sep [simp]:
  "is_digit c \<Longrightarrow> c \<noteq> CHR ''-''" "is_digit c \<Longrightarrow> c \<noteq> CHR ''T''" "is_digit c \<Longrightarrow> c \<noteq> CHR ''.''"
  by (auto simp: is_digit_def)

lemma iso_prefix_shape:
  assumes "iso_prefix s"
  shows "\<exists>y1 y2 y3 y4 m1 m2 d1 d2 r.
           s = [y1, y2, y3, y4, CHR ''-'', m1, m2, CHR ''-'', d1, d2] @ r \<and>
           is_digit y1 \<and> is_digit y2 \<and> is_digit y3 \<and> is_digit y4 \<and>
           is_digit m1 \<and> is_digit m2 \<and> is_digit d1 \<and> is_digit d2"
  using assms by (auto simp: iso_prefix_def split: list.splits)

lemma takeWhile_conj:
  "takeWhile (\<lambda>c. c \<noteq> a) (takeWhile (\<lambda>c. c \<noteq> b) xs) = takeWhile (\<lambda>c. c \<noteq> a \<and> c \<noteq> b) xs"
  by (induction xs) auto

lemma formatDate_match:
  assumes "iso_prefix s"
  shows "formatDate (Some s) =
           takeWhile (\<lambda>c. c \<noteq> CHR ''-'' \<and> c \<noteq> CHR ''T'') (drop 8 s) @ ''.'' @
           take 2 (drop 5 s) @ ''.'' @ take 4 s"
proof -
  from iso_prefix_shape [OF assms] obtain y1 y2 y3 y4 m1 m2 d1 d2 r where
    s: "s = [y1, y2, y3, y4, CHR ''-'', m1, m2, CHR ''-'', d1, d2] @ r" and
    dg: "is_digit y1" "is_digit y2" "is_digit y3" "is_digit y4"
        "is_digit m1" "is_digit m2" "is_digit d1" "is_digit d2"
    by blast
  define p where "p = takeWhile (\<lambda>c. c \<noteq> CHR ''T'') s"
  define day where "day = d1 # d2 # takeWhile (\<lambda>c. c \<noteq> CHR ''-'') (takeWhile (\<lambda>c. c \<noteq> CHR ''T'') r)"
  obtain rest where sp: "split_char CHR ''T'' s = p # rest"
    using split_char_hd [of "CHR ''T''" s] by (auto simp: p_def)
  have p: "p = [y1, y2, y3, y4] @ CHR ''-'' # ([m1, m2] @ CHR ''-'' #
             (d1 # d2 # takeWhile (\<lambda>c. c \<noteq> CHR ''T'') r))"
    using dg by (simp add: p_def s)
  obtain rest2 where
    "split_char CHR ''-'' (d1 # d2 # takeWhile (\<lambda>c. c \<noteq> CHR ''T'') r) = day # rest2"
    using split_char_hd [of "CHR ''-''" "d1 # d2 # takeWhile (\<lambda>c. c \<noteq> CHR ''T'') r"] dg
    by (auto simp: day_def)
  then have "split_char CHR ''-'' ([m1, m2] @ CHR ''-'' #
                 (d1 # d2 # takeWhile (\<lambda>c. c \<noteq> CHR ''T'') r)) = [m1, m2] # day # rest2"
    using dg by (subst split_char_cons) auto
  then have sp2: "split_char CHR ''-'' p = [y1, y2, y3, y4] # [m1, m2] # day # rest2"
    unfolding p using dg by (subst split_char_cons) auto
  have "formatDate (Some s) = day @ ''.'' @ [m1, m2] @ ''.'' @ [y1, y2, y3, y4]"
    using assms sp sp2 by (simp add: formatDate_def s day_def)
  moreover have "day = takeWhile (\<lambda>c. c \<noteq> CHR ''-'' \<and> c \<noteq> CHR ''T'') (drop 8 s)"
    using dg by (simp add: day_def s takeWhile_conj)
  ultimately show ?thesis by (simp add: s)
qed

lemma formatDate_nomatch: "\<not> iso_prefix s \<Longrightarrow> formatDate (Some s) = ''N/A''"
  by (simp add: formatDate_def)

lemma formatDate_match_not_NA:
  assumes "iso_prefix s"
  shows "formatDate (Some s) \<noteq> ''N/A''"
proof -
  from iso_prefix_shape [OF assms] obtain y1 y2 y3 y4 m1 m2 d1 d2 r where
    s: "s = [y1, y2, y3, y4, CHR ''-'', m1, m2, CHR ''-'', d1, d2] @ r" by blast
  have "length (formatDate (Some s)) \<ge> 8"
    unfolding formatDate_match [OF assms] by (simp add: s)
  then show ?thesis by auto
qed

lemma iso_prefix_split:
  assumes "iso_prefix s"
  shows "\<exists>rest. split_char CHR ''-'' (hd (split_char CHR ''T'' s)) =
           take 4 s # take 2 (drop 5 s) #
           takeWhile (\<lambda>c. c \<noteq> CHR ''-'' \<and> c \<noteq> CHR ''T'') (drop 8 s) # rest"
proof -
  from iso_prefix_shape [OF assms] obtain y1 y2 y3 y4 m1 m2 d1 d2 r where
    s: "s = [y1, y2, y3, y4, CHR ''-'', m1, m2, CHR ''-'', d1, d2] @ r" and
    dg: "is_digit y1" "is_digit y2" "is_digit y3" "is_digit y4"
        "is_digit m1" "is_digit m2" "is_digit d1" "is_digit d2"
    by blast
  define tl3 where "tl3 = d1 # d2 # takeWhile (\<lambda>c. c \<noteq> CHR ''T'') r"
  have p: "hd (split_char CHR ''T'' s) =
             [y1, y2, y3, y4] @ CHR ''-'' # ([m1, m2] @ CHR ''-'' # tl3)"
    using split_char_hd [of "CHR ''T''" s] dg by (auto simp: s tl3_def)
  obtain rest where r3: "split_char CHR ''-'' tl3 = takeWhile (\<lambda>c. c \<noteq> CHR ''-'') tl3 # rest"
    using split_char_hd [of "CHR ''-''" tl3] by blast
  have "split_char CHR ''-'' ([m1, m2] @ CHR ''-'' # tl3) =
          [m1, m2] # takeWhile (\<lambda>c. c \<noteq> CHR ''-'') tl3 # rest"
    using dg r3 by (subst split_char_cons) auto
  then have "split_char CHR ''-'' (hd (split_char CHR ''T'' s)) =
          [y1, y2, y3, y4] # [m1, m2] # takeWhile (\<lambda>c. c \<noteq> CHR ''-'') tl3 # rest"
    unfolding p using dg by (subst split_char_cons) auto
  moreover have "takeWhile (\<lambda>c. c \<noteq> CHR ''-'') tl3 =
                 takeWhile (\<lambda>c. c \<noteq> CHR ''-'' \<and> c \<noteq> CHR ''T'') (drop 8 s)"
    using dg by (simp add: tl3_def s takeWhile_conj)
  ultimately show ?thesis by (simp add: s)
qed

lemma formatDate_NA_iff:
  "formatDate x = ''N/A'' \<longleftrightarrow> x = None \<or> x = Some [] \<or> (\<exists>s. x = Some s \<and> \<not> iso_prefix s)"
proof (cases x)
  case None
  then show ?thesis by (simp add: formatDate_def)
next
  case (Some s)
  show ?thesis
  proof (cases "iso_prefix s")
    case True
    then have "s \<noteq> []" by (auto simp: iso_prefix_def)
    with True Some formatDate_match_not_NA [OF True] show ?thesis by simp
  next
    case False
    with Some formatDate_nomatch [OF False] show ?thesis by simp
  qed
qed

section \<open>Properties of the German date pattern\<close>

lemma german_match_SomeD:
  assumes "german_match s = Some (d, m, y)"
  shows "s = d @ ''.'' @ m @ ''.'' @ y \<and> digits d \<and> digits m \<and> digits y \<and>
         1 \<le> length d \<and> length d \<le> 2 \<and> 1 \<le> length m \<and> length m \<le> 2 \<and>
         2 \<le> length y \<and> length y \<le> 4"
proof -
  define r1 where "r1 = dropWhile is_digit s"
  have d: "d = takeWhile is_digit s" and ld: "1 \<le> length d" "length d \<le> 2"
    using assms by (auto simp: german_match_def Let_def Suc_le_eq split: if_splits list.splits)
  obtain r2 where r1: "r1 = CHR ''.'' # r2"
    using assms by (auto simp: german_match_def Let_def r1_def split: if_splits list.splits)
  define r3 where "r3 = dropWhile is_digit r2"
  have m: "m = takeWhile is_digit r2" and lm: "1 \<le> length m" "length m \<le> 2"
    using assms r1 by (auto simp: german_match_def Let_def r1_def Suc_le_eq split: if_splits list.splits)
  obtain r4 where r3: "r3 = CHR ''.'' # r4"
    using assms r1 by (auto simp: german_match_def Let_def r1_def r3_def split: if_splits list.splits)
  have y: "y = takeWhile is_digit r4" and ly: "2 \<le> length y" "length y \<le> 4"
    and e: "dropWhile is_digit r4 = []"
    using assms r1 r3
    by (auto simp: german_match_def Let_def r1_def r3_def split: if_splits list.splits)
  have "s = d @ r1" by (simp add: d r1_def)
  moreover have "r2 = m @ r3" by (simp add: m r3_def)
  moreover have "r4 = y" using e by (simp add: y takeWhile_eq_all_conv [THEN iffD2])
  ultimately have "s = d @ ''.'' @ m @ ''.'' @ y" by (simp add: r1 r3)
  moreover have "digits d" "digits m" "digits y"
    by (auto simp: digits_def list_all_iff d m y dest: set_takeWhileD)
  ultimately show ?thesis using ld lm ly by simp
qed

lemma span_digits:
  assumes "digits a"
  shows "takeWhile is_digit (a @ CHR ''.'' # b) = a" "dropWhile is_digit (a @ CHR ''.'' # b) = CHR ''.'' # b"
  using assms by (auto simp: digits_def list_all_iff takeWhile_append2 dropWhile_append2)

lemma span_digits_end:
  assumes "digits a"
  shows "takeWhile is_digit a = a" "dropWhile is_digit a = []"
  using assms by (auto simp: digits_def list_all_iff)

lemma german_match_SomeI:
  assumes "digits d" "digits m" "digits y"
      "1 \<le> length d" "length d \<le> 2" "1 \<le> length m" "length m \<le> 2"
      "2 \<le> length y" "length y \<le> 4"
  shows "german_match (d @ ''.'' @ m @ ''.'' @ y) = Some (d, m, y)"
  using assms
  by (auto simp: german_match_def Let_def span_digits span_digits_end digits_def list_all_iff)

section \<open>Properties of date parsing\<close>

lemma digit_val_le: "is_digit c \<Longrightarrow> digit_val c \<le> 9"
  by (auto simp: is_digit_def digit_val_def)

lemma parseInt10_zero: "parseInt10 (CHR ''0'' # s) = parseInt10 s"
  by (simp add: parseInt10_def digit_val_def)

lemma padStart2_props:
  assumes "digits s" "1 \<le> length s" "length s \<le> 2"
  shows "digits (padStart2 s)" "length (padStart2 s) = 2" "parseInt10 (padStart2 s) = parseInt10 s"
proof -
  consider "length s = 1" | "length s = 2" using assms by linarith
  then have "digits (padStart2 s) \<and> length (padStart2 s) = 2 \<and>
             parseInt10 (padStart2 s) = parseInt10 s"
  proof cases
    case 1
    then have "padStart2 s = CHR ''0'' # s" by (simp add: padStart2_def)
    with 1 assms show ?thesis by (simp add: parseInt10_zero digits_def is_digit_def)
  next
    case 2
    then have "padStart2 s = s" by (simp add: padStart2_def)
    with 2 assms show ?thesis by simp
  qed
  then show "digits (padStart2 s)" "length (padStart2 s) = 2"
    "parseInt10 (padStart2 s) = parseInt10 s" by auto
qed

lemma parseInt10_4_le:
  assumes "digits y" "length y = 4"
  shows "parseInt10 y \<le> 9999"
proof -
  obtain a b c d where y: "y = [a, b, c, d]"
    using assms(2) by (auto simp: length_Suc_conv numeral_eq_Suc)
  with assms(1) show ?thesis
    using digit_val_le [of a] digit_val_le [of b] digit_val_le [of c] digit_val_le [of d]
    by (simp add: digits_def parseInt10_def)
qed

lemma Date_parse_built:
  assumes "digits year" "length year = 4" "digits month" "length month = 2"
      "digits day" "length day = 2"
  shows "Date_parse env (year @ ''-'' @ month @ ''-'' @ day @ ''T00:00:00Z'') =
           (if valid_date (int (parseInt10 year)) (int (parseInt10 month)) (int (parseInt10 day))
            then Some (MakeDate
               (MakeDay (int (parseInt10 year)) (int (parseInt10 month) - 1)
                  (int (parseInt10 day))) 0)
            else parse_fallback env (year @ ''-'' @ month @ ''-'' @ day @ ''T00:00:00Z''))"
  using assms by (simp add: Date_parse_def Let_def nth_append)

lemma Date_parse_other:
  "length s \<noteq> 20 \<Longrightarrow> Date_parse env s = parse_fallback env s"
  by (simp add: Date_parse_def Let_def)

lemma Day_shift: "Day (MakeDate n 0 + x) = n + x div msPerDay"
  by (simp add: Day_def MakeDate_def msPerDay_def)

lemma shift_zero: "x div msPerDay = 0 \<longleftrightarrow> 0 \<le> x \<and> x < msPerDay"
  by (auto simp: msPerDay_def div_eq_0_iff zdiv_eq_0_iff)

lemma MakeDay_range:
  assumes "valid_date y m d"
  shows "DayFromYear y \<le> MakeDay y (m - 1) d \<and> MakeDay y (m - 1) d < DayFromYear (y + 1)"
proof -
  define t where "t = MakeDate (MakeDay y (m - 1) d) 0"
  have "Day t = MakeDay y (m - 1) d" using Day_shift [of "MakeDay y (m - 1) d" 0] by (simp add: t_def)
  with civil_roundtrip [OF assms this] YearFromTime_bounds [of t] show ?thesis by simp
qed

lemma DayFromYear_bounds:
  assumes "0 \<le> y" "y \<le> 9999"
  shows "-719528 \<le> DayFromYear y \<and> DayFromYear (y + 1) \<le> 2932897"
proof -
  have "DayFromYear 0 = -719528" "DayFromYear 10000 = 2932897" by (simp_all add: DayFromYear_def)
  with DayFromYear_mono [OF assms(1)] DayFromYear_mono [of "y + 1" 10000] assms(2)
  show ?thesis by simp
qed

lemma TimeClip_valid:
  assumes "valid_date y m d" "0 \<le> y" "y \<le> 9999"
  shows "TimeClip (MakeDate (MakeDay y (m - 1) d) 0) = Some (MakeDate (MakeDay y (m - 1) d) 0)"
  using MakeDay_range [OF assms(1)] DayFromYear_bounds [OF assms(2,3)]
  by (simp add: TimeClip_def MakeDate_def msPerDay_def abs_if)

lemma parseGermanDate_unfold:
  assumes "german_match s = Some (d0, m0, y0)"
  shows "parseGermanDate env (Some s) =
    (let day = padStart2 d0; month = padStart2 m0; year = expand_year y0;
         date = new_Date env (year @ ''-'' @ month @ ''-'' @ day @ ''T00:00:00Z'')
     in if getFullYear env date = Some (int (parseInt10 year)) \<and>
           getMonth env date = Some (int (parseInt10 month) - 1) \<and>
           getDate env date = Some (int (parseInt10 day))
        then Some (year @ ''-'' @ month @ ''-'' @ day) else None)"
proof -
  have "s \<noteq> []" using german_match_SomeD [OF assms] by auto
  moreover have "map_option (\<lambda>m. m + 1) x = Some k \<longleftrightarrow> x = Some (k - 1)" for x :: "int option" and k
    by (cases x) auto
  ultimately show ?thesis
    using assms by (simp add: parseGermanDate_def Let_def expand_year_def)
qed

lemma parseGermanDate_sound:
  assumes "parseGermanDate env (Some s) = Some r"
  shows "\<exists>d0 m0 y0. german_match s = Some (d0, m0, y0) \<and>
           r = expand_year y0 @ ''-'' @ padStart2 m0 @ ''-'' @ padStart2 d0 \<and>
           valid_date (int (parseInt10 (expand_year y0))) (int (parseInt10 m0)) (int (parseInt10 d0))"
proof -
  obtain d0 m0 y0 where gm: "german_match s = Some (d0, m0, y0)"
    using assms by (auto simp: parseGermanDate_def split: if_splits option.splits)
  note sh = german_match_SomeD [OF gm]
  define str where "str = expand_year y0 @ ''-'' @ padStart2 m0 @ ''-'' @ padStart2 d0 @ ''T00:00:00Z''"
  from assms obtain t where
    r: "r = expand_year y0 @ ''-'' @ padStart2 m0 @ ''-'' @ padStart2 d0" and
    g: "YearFromTime (LocalTime env t) = int (parseInt10 (expand_year y0))"
       "MonthFromTime (LocalTime env t) = int (parseInt10 (padStart2 m0)) - 1"
       "DateFromTime (LocalTime env t) = int (parseInt10 (padStart2 d0))"
    unfolding parseGermanDate_unfold [OF gm] Let_def getFullYear_def getMonth_def getDate_def
    by (cases "new_Date env (expand_year y0 @ ''-'' @ padStart2 m0 @ ''-'' @ padStart2 d0 @ ''T00:00:00Z'')")
       (auto split: if_splits)
  have "valid_date (int (parseInt10 (expand_year y0))) (int (parseInt10 (padStart2 m0)))
          (int (parseInt10 (padStart2 d0)))"
    using getters_valid [of "LocalTime env t"] g by simp
  then show ?thesis using gm r sh by (auto simp: padStart2_props)
qed

lemma parseGermanDate_four_digit:
  assumes gm: "german_match s = Some (d0, m0, y0)" and ly: "length y0 = 2 \<or> length y0 = 4"
  defines "Y \<equiv> int (parseInt10 (expand_year y0))"
  defines "M \<equiv> int (parseInt10 m0)"
  defines "D \<equiv> int (parseInt10 d0)"
  shows "parseGermanDate env (Some s) =
           (if valid_date Y M D \<and>
               0 \<le> LocalTZA env (MakeDate (MakeDay Y (M - 1) D) 0) \<and>
               LocalTZA env (MakeDate (MakeDay Y (M - 1) D) 0) < msPerDay
            then Some (expand_year y0 @ ''-'' @ padStart2 m0 @ ''-'' @ padStart2 d0)
            else None)"
proof (cases "valid_date Y M D")
  case False
  have "parseGermanDate env (Some s) = None"
  proof (cases "parseGermanDate env (Some s)")
    case (Some r)
    from parseGermanDate_sound [OF Some] gm False show ?thesis by (simp add: Y_def M_def D_def)
  qed simp
  with False show ?thesis by simp
next
  case True
  note sh = german_match_SomeD [OF gm]
  have dy: "digits (expand_year y0)" "length (expand_year y0) = 4"
    using sh ly by (auto simp: expand_year_def digits_def is_digit_def)
  have pm: "digits (padStart2 m0)" "length (padStart2 m0) = 2" "parseInt10 (padStart2 m0) = parseInt10 m0"
    using sh by (auto intro: padStart2_props)
  have pd: "digits (padStart2 d0)" "length (padStart2 d0) = 2" "parseInt10 (padStart2 d0) = parseInt10 d0"
    using sh by (auto intro: padStart2_props)
  define t0 where "t0 = MakeDate (MakeDay Y (M - 1) D) 0"
  have Y: "0 \<le> Y" "Y \<le> 9999" using parseInt10_4_le [OF dy] by (auto simp: Y_def)
  have "Date_parse env (expand_year y0 @ ''-'' @ padStart2 m0 @ ''-'' @ padStart2 d0 @ ''T00:00:00Z'')
              = Some t0"
    unfolding Date_parse_built [OF dy pm(1,2) pd(1,2)]
    using True by (simp add: pm pd Y_def M_def D_def t0_def)
  then have nd: "new_Date env (expand_year y0 @ ''-'' @ padStart2 m0 @ ''-'' @ padStart2 d0 @ ''T00:00:00Z'')
              = Some t0"
    using TimeClip_valid [OF True Y] by (simp add: new_Date_def t0_def)
  have dl: "Day (LocalTime env t0) = MakeDay Y (M - 1) D + LocalTZA env t0 div msPerDay"
    by (simp add: LocalTime_def t0_def Day_shift)
  have acc: "(YearFromTime (LocalTime env t0) = Y \<and> MonthFromTime (LocalTime env t0) = M - 1 \<and>
              DateFromTime (LocalTime env t0) = D) \<longleftrightarrow> LocalTZA env t0 div msPerDay = 0"
  proof
    assume "LocalTZA env t0 div msPerDay = 0"
    with dl civil_roundtrip [OF True, of "LocalTime env t0"] show
      "YearFromTime (LocalTime env t0) = Y \<and> MonthFromTime (LocalTime env t0) = M - 1 \<and>
       DateFromTime (LocalTime env t0) = D" by simp
  next
    assume "YearFromTime (LocalTime env t0) = Y \<and> MonthFromTime (LocalTime env t0) = M - 1 \<and>
            DateFromTime (LocalTime env t0) = D"
    with getters_valid [of "LocalTime env t0"] have "Day (LocalTime env t0) = MakeDay Y (M - 1) D"
      by simp
    with dl show "LocalTZA env t0 div msPerDay = 0" by simp
  qed
  show ?thesis
    unfolding parseGermanDate_unfold [OF gm] Let_def nd getFullYear_def getMonth_def getDate_def
    using True acc sh
    by (simp add: shift_zero pm pd Y_def M_def D_def t0_def)
qed

lemma iso_date_shape:
  assumes "iso_date d"
  shows "\<exists>y1 y2 y3 y4 m1 m2 d1 d2.
           d = [y1, y2, y3, y4, CHR ''-'', m1, m2, CHR ''-'', d1, d2] \<and>
           is_digit y1 \<and> is_digit y2 \<and> is_digit y3 \<and> is_digit y4 \<and>
           is_digit m1 \<and> is_digit m2 \<and> is_digit d1 \<and> is_digit d2"
proof -
  have "length d = 10" using assms by (simp add: iso_date_def)
  then obtain y1 y2 y3 y4 h1 m1 m2 h2 d1 d2 where
    d: "d = [y1, y2, y3, y4, h1, m1, m2, h2, d1, d2]"
    by (auto simp: length_Suc_conv numeral_eq_Suc)
  with assms show ?thesis by (simp add: iso_date_def digits_def)
qed

lemma formatDate_iso_date:
  assumes "iso_date d"
  shows "formatDate (Some d) = take 2 (drop 8 d) @ ''.'' @ take 2 (drop 5 d) @ ''.'' @ take 4 d"
proof -
  from iso_date_shape [OF assms] obtain y1 y2 y3 y4 m1 m2 d1 d2 where
    d: "d = [y1, y2, y3, y4, CHR ''-'', m1, m2, CHR ''-'', d1, d2]" and
    dg: "is_digit y1" "is_digit y2" "is_digit y3" "is_digit y4"
        "is_digit m1" "is_digit m2" "is_digit d1" "is_digit d2"
    by blast
  have "iso_prefix d" using dg by (simp add: d iso_prefix_def)
  from formatDate_match [OF this] dg show ?thesis by (simp add: d)
qed

lemma roundtrip_char:
  assumes "iso_date d"
  shows "parseGermanDate env (Some (formatDate (Some d))) =
           (if 0 \<le> LocalTZA env (midnight_utc d) \<and> LocalTZA env (midnight_utc d) < msPerDay
            then Some d else None)"
proof -
  from iso_date_shape [OF assms] obtain y1 y2 y3 y4 m1 m2 d1 d2 where
    d: "d = [y1, y2, y3, y4, CHR ''-'', m1, m2, CHR ''-'', d1, d2]" and
    dg: "is_digit y1" "is_digit y2" "is_digit y3" "is_digit y4"
        "is_digit m1" "is_digit m2" "is_digit d1" "is_digit d2"
    by blast
  have v: "valid_date (int (parseInt10 [y1, y2, y3, y4])) (int (parseInt10 [m1, m2]))
             (int (parseInt10 [d1, d2]))"
    using assms by (simp add: iso_date_def d)
  have f: "formatDate (Some d) = [d1, d2] @ ''.'' @ [m1, m2] @ ''.'' @ [y1, y2, y3, y4]"
    using formatDate_iso_date [OF assms] by (simp add: d)
  have gm: "german_match (formatDate (Some d)) = Some ([d1, d2], [m1, m2], [y1, y2, y3, y4])"
    unfolding f using dg by (intro german_match_SomeI) (simp_all add: digits_def)
  have ey: "expand_year [y1, y2, y3, y4] = [y1, y2, y3, y4]" by (simp add: expand_year_def)
  have pp: "padStart2 [m1, m2] = [m1, m2]" "padStart2 [d1, d2] = [d1, d2]"
    by (simp_all add: padStart2_def)
  have l4: "length [y1, y2, y3, y4] = 2 \<or> length [y1, y2, y3, y4] = 4" by simp
  show ?thesis
    unfolding parseGermanDate_four_digit [OF gm l4]
    using v by (simp add: ey pp midnight_utc_def d)
qed

section \<open>Claims about date formatting\<close>

text \<open>
  C10. \<open>formatDate\<close> performs no calendar validation. For every string whose first ten
  characters match \<open>\d{4}-\d{2}-\d{2}\<close>, the part before the first \<open>T\<close>, split at
  \<open>-\<close>, begins with the four year digits, the two month digits and a third component that
  starts with the two day digits; the result is third, second and first component joined
  by dots, whatever numbers they spell (\<open>2024-99-88\<close> gives \<open>88.99.2024\<close>). The text
  \<open>N/A\<close> comes out exactly for null, for the empty string and for a string whose prefix
  does not match.
\<close>

theorem formatDate_no_calendar_validation:
  "(iso_prefix s \<longrightarrow>
      (\<exists>year month day rest.
         split_char CHR ''-'' (hd (split_char CHR ''T'' s)) = year # month # day # rest \<and>
         year = take 4 s \<and> month = take 2 (drop 5 s) \<and>
         day = takeWhile (\<lambda>c. c \<noteq> CHR ''-'' \<and> c \<noteq> CHR ''T'') (drop 8 s) \<and>
         take 2 day = take 2 (drop 8 s) \<and>
         formatDate (Some s) = day @ ''.'' @ month @ ''.'' @ year)) \<and>
   (formatDate x = ''N/A'' \<longleftrightarrow>
      x = None \<or> x = Some [] \<or> (\<exists>s. x = Some s \<and> \<not> iso_prefix s)) \<and>
   formatDate (Some ''2024-99-88'') = ''88.99.2024''"
proof (intro conjI impI)
  assume m: "iso_prefix s"
  from iso_prefix_split [OF m] obtain rest where
    sp: "split_char CHR ''-'' (hd (split_char CHR ''T'' s)) =
           take 4 s # take 2 (drop 5 s) #
           takeWhile (\<lambda>c. c \<noteq> CHR ''-'' \<and> c \<noteq> CHR ''T'') (drop 8 s) # rest"
    by blast
  from iso_prefix_shape [OF m] obtain y1 y2 y3 y4 m1 m2 d1 d2 r where
    s: "s = [y1, y2, y3, y4, CHR ''-'', m1, m2, CHR ''-'', d1, d2] @ r" and
    dg: "is_digit d1" "is_digit d2"
    by blast
  have "take 2 (takeWhile (\<lambda>c. c \<noteq> CHR ''-'' \<and> c \<noteq> CHR ''T'') (drop 8 s)) = take 2 (drop 8 s)"
    using dg by (simp add: s)
  with sp formatDate_match [OF m] show
    "\<exists>year month day rest.
         split_char CHR ''-'' (hd (split_char CHR ''T'' s)) = year # month # day # rest \<and>
         year = take 4 s \<and> month = take 2 (drop 5 s) \<and>
         day = takeWhile (\<lambda>c. c \<noteq> CHR ''-'' \<and> c \<noteq> CHR ''T'') (drop 8 s) \<and>
         take 2 day = take 2 (drop 8 s) \<and>
         formatDate (Some s) = day @ ''.'' @ month @ ''.'' @ year"
    by simp
next
  show "formatDate x = ''N/A'' \<longleftrightarrow>
      x = None \<or> x = Some [] \<or> (\<exists>s. x = Some s \<and> \<not> iso_prefix s)"
    by (rule formatDate_NA_iff)
next
  have "iso_prefix ''2024-99-88''" by (simp add: iso_prefix_def is_digit_def)
  from formatDate_match [OF this] show "formatDate (Some ''2024-99-88'') = ''88.99.2024''"
    by simp
qed

theorem formatDate_no_calendar_validation_witness:
  "iso_prefix ''2024-13-45T09:00'' \<and>
   formatDate (Some ''2024-13-45T09:00'') = ''45.13.2024'' \<and>
   formatDate (Some ''2024-13-45T09:00'') \<noteq> ''N/A'' \<and>
   formatDate (Some ''13.45.2024'') = ''N/A''"
  using formatDate_no_calendar_validation [of "''2024-13-45T09:00''" "Some ''13.45.2024''"]
  by (simp add: iso_prefix_def is_digit_def)

section \<open>Claims about date parsing\<close>

text \<open>
  What \<open>parseGermanDate\<close> does is settled by three lemmas above, for every host:
  \<open>parseGermanDate_sound\<close> (a result other than null comes from a string of the pattern
  and names a date of the calendar), \<open>parseGermanDate_four_digit\<close> (with a year of two
  or four digits the result is the ISO date exactly when the date is valid and local time
  at that date's UTC midnight is not behind UTC and less than a day ahead of it, and null
  otherwise) and \<open>roundtrip_char\<close> (the same for \<open>parseGermanDate (formatDate d)\<close>).
\<close>

lemma roundtrip_east_of_utc:
  "iso_date d \<Longrightarrow> 0 \<le> LocalTZA env (midnight_utc d) \<Longrightarrow> LocalTZA env (midnight_utc d) < msPerDay \<Longrightarrow>
   parseGermanDate env (Some (formatDate (Some d))) = Some d"
  by (simp add: roundtrip_char)

lemma iso_date_2024_03_01: "iso_date ''2024-03-01''"
  by (simp add: iso_date_def digits_def is_digit_def valid_date_def DaysInMonth_def
      parseInt10_def digit_val_def)

lemma parseGermanDate_rejects_31_02_2024: "parseGermanDate env (Some ''31.02.2024'') = None"
proof -
  have gm: "german_match ''31.02.2024'' = Some (''31'', ''02'', ''2024'')"
    by (simp add: german_match_def is_digit_def Let_def)
  have p: "parseInt10 ''2024'' = 2024" "parseInt10 ''02'' = 2" "parseInt10 ''31'' = 31"
    by (simp_all add: parseInt10_def digit_val_def)
  have "\<not> valid_date 2024 2 31" by (simp add: valid_date_def DaysInMonth_def DaysInYear_def)
  then show ?thesis
    by (subst parseGermanDate_four_digit [OF gm]) (simp_all add: expand_year_def p)
qed

lemma parseGermanDate_rejects_iso_form: "parseGermanDate env (Some ''2024-02-31'') = None"
  by (simp add: parseGermanDate_def german_match_def is_digit_def Let_def)

text \<open>
  C1 states that \<open>parseGermanDate (formatDate d) = d\<close> for every valid calendar date
  \<open>d\<close> written \<open>YYYY-MM-DD\<close>. The source builds the date at midnight UTC (the suffix
  \<open>T00:00:00Z\<close>) and reads it back with the getters of local time. Where local time is
  not behind UTC the two agree and the round trip holds (\<open>roundtrip_east_of_utc\<close>). On a host whose local time
  is behind UTC at that midnight the local date is the day before, the comparison fails and
  the function returns null: for every valid date \<open>d\<close>, the round trip gives null instead
  of \<open>d\<close>.
\<close>

theorem roundtrip_fails_west_of_utc:
  "iso_date d \<Longrightarrow> LocalTZA env (midnight_utc d) < 0 \<Longrightarrow>
   parseGermanDate env (Some (formatDate (Some d))) = None"
  by (simp add: roundtrip_char)

theorem roundtrip_fails_west_of_utc_witness:
  "iso_date ''2024-03-01'' \<and>
   LocalTZA env_utc_minus_5 (midnight_utc ''2024-03-01'') < 0 \<and>
   formatDate (Some ''2024-03-01'') = ''01.03.2024'' \<and>
   parseGermanDate env_utc_minus_5 (Some ''01.03.2024'') = None"
proof -
  have l: "LocalTZA env_utc_minus_5 (midnight_utc ''2024-03-01'') < 0"
    by (simp add: env_utc_minus_5_def)
  have f: "formatDate (Some ''2024-03-01'') = ''01.03.2024''"
    using formatDate_iso_date [OF iso_date_2024_03_01] by simp
  from roundtrip_fails_west_of_utc [OF iso_date_2024_03_01 l] f iso_date_2024_03_01 l
  show ?thesis by simp
qed

lemma parseGermanDate_three_digit_year_rejected:
  assumes gm: "german_match s = Some (d0, m0, y0)" and ly: "length y0 = 3"
    and fb: "parse_fallback env (y0 @ ''-'' @ padStart2 m0 @ ''-'' @ padStart2 d0 @ ''T00:00:00Z'') = None"
  shows "parseGermanDate env (Some s) = None"
proof -
  note sh = german_match_SomeD [OF gm]
  have pm: "length (padStart2 m0) = 2" using sh by (auto intro: padStart2_props)
  have pd: "length (padStart2 d0) = 2" using sh by (auto intro: padStart2_props)
  have ey: "expand_year y0 = y0" using ly by (simp add: expand_year_def)
  have "length (y0 @ ''-'' @ padStart2 m0 @ ''-'' @ padStart2 d0 @ ''T00:00:00Z'') \<noteq> 20"
    using ly pm pd by simp
  from Date_parse_other [OF this] fb
  have nd: "new_Date env (y0 @ ''-'' @ padStart2 m0 @ ''-'' @ padStart2 d0 @ ''T00:00:00Z'') = None"
    by (simp add: new_Date_def)
  show ?thesis
    unfolding parseGermanDate_unfold [OF gm] Let_def ey nd getFullYear_def getMonth_def getDate_def
    by simp
qed

text \<open>
  C2 states that \<open>parseGermanDate\<close> accepts the strings \<open>D.M.YY\<close> and \<open>DD.MM.YYYY\<close>
  that name a date of the calendar and returns null for everything else. The second half
  holds on every host: a result other than null comes from a string of the pattern and
  names a valid date, padded and expanded as stated (\<open>parseGermanDate_sound\<close>), and the two
  examples give null (\<open>parseGermanDate_rejects_31_02_2024\<close>,
  \<open>parseGermanDate_rejects_iso_form\<close>). A year of three digits matches the pattern
  \<open>\d{2,4}\<close>, but it reaches \<open>Date\<close> in a string outside the standard's format and gives
  null wherever the engine rejects that string (\<open>parseGermanDate_three_digit_year_rejected\<close>).

  The first half fails. The date is built at midnight UTC and read back with the getters
  of local time, so on a host whose local time is behind UTC at that midnight the day read
  back is the day before, the comparison fails, and every string of the accepted shape that
  names a valid date is rejected.
\<close>

theorem parseGermanDate_rejects_valid_west_of_utc:
  assumes gm: "german_match s = Some (d0, m0, y0)"
    and ly: "length y0 = 2 \<or> length y0 = 4"
    and v: "valid_date (int (parseInt10 (expand_year y0))) (int (parseInt10 m0)) (int (parseInt10 d0))"
    and west: "LocalTZA env (MakeDate (MakeDay (int (parseInt10 (expand_year y0)))
                 (int (parseInt10 m0) - 1) (int (parseInt10 d0))) 0) < 0"
  shows "parseGermanDate env (Some s) = None"
  using west by (subst parseGermanDate_four_digit [OF gm ly]) simp

theorem parseGermanDate_rejects_valid_west_of_utc_witness:
  "german_match ''24.12.2023'' = Some (''24'', ''12'', ''2023'') \<and>
   valid_date 2023 12 24 \<and>
   parseGermanDate env_utc_minus_5 (Some ''24.12.2023'') = None \<and>
   german_match ''1.3.24'' = Some (''1'', ''3'', ''24'') \<and>
   valid_date 2024 3 1 \<and>
   parseGermanDate env_utc_minus_5 (Some ''1.3.24'') = None"
proof -
  have gm1: "german_match ''24.12.2023'' = Some (''24'', ''12'', ''2023'')"
    by (simp add: german_match_def is_digit_def Let_def)
  have gm2: "german_match ''1.3.24'' = Some (''1'', ''3'', ''24'')"
    by (simp add: german_match_def is_digit_def Let_def)
  have p: "parseInt10 ''2023'' = 2023" "parseInt10 ''12'' = 12" "parseInt10 ''24'' = 24"
    "parseInt10 ''2024'' = 2024" "parseInt10 ''3'' = 3" "parseInt10 ''1'' = 1"
    by (simp_all add: parseInt10_def digit_val_def)
  have v1: "valid_date 2023 12 24" by (simp add: valid_date_def DaysInMonth_def)
  have v2: "valid_date 2024 3 1" by (simp add: valid_date_def DaysInMonth_def)
  have r1: "parseGermanDate env_utc_minus_5 (Some ''24.12.2023'') = None"
    using parseGermanDate_rejects_valid_west_of_utc [OF gm1, of env_utc_minus_5] v1
    by (simp add: expand_year_def p env_utc_minus_5_def)
  have r2: "parseGermanDate env_utc_minus_5 (Some ''1.3.24'') = None"
    using parseGermanDate_rejects_valid_west_of_utc [OF gm2, of env_utc_minus_5] v2
    by (simp add: expand_year_def p env_utc_minus_5_def)
  from gm1 gm2 v1 v2 r1 r2 show ?thesis by simp
qed

section \<open>Claims about the CSV export\<close>

lemma replace_all_concat:
  "replace_all c r v = concat (map (\<lambda>x. if x = c then r else [x]) v)"
  by (induction v) auto

lemma escapeCell_quote_cell: "escapeCell v = quote_cell v"
proof -
  have "replace_all (CHR 0x22) [CHR 0x22, CHR 0x22] v =
        concat (map (\<lambda>c. if c = CHR 0x22 then [c, c] else [c]) v)"
    by (induction v) auto
  then show ?thesis by (simp add: escapeCell_def quote_cell_def)
qed

lemma replace_first_comma: "replace_first CHR ''.'' '','' a = comma_amount a"
  by (induction a) (auto simp: comma_amount_def)

lemma js_or_empty [simp]: "js_or a [] = a"
  by (simp add: js_or_def)

lemma join_lines: "join [c] (x # xs) = x @ concat (map (\<lambda>l. c # l) xs)"
  by (induction xs arbitrary: x) auto

lemma entriesToCSV_csv_text: "entriesToCSV es = csv_text es"
  by (simp add: entriesToCSV_def csv_text_def csv_header_def csv_row_def join_lines
      escapeCell_quote_cell replace_first_comma comp_def)

text \<open>
  C3. For every sequence of entries \<open>entriesToCSV\<close> is the text the specification
  describes: the header row \<open>Lieferant;Rechnungsnummer;Datum;Betrag\<close>, then one row per
  entry in the order of the input, each row after a line feed and none after the last; the
  cells of a row are joined by semicolons; every cell, of the header too, stands between
  double quotes with each double quote inside it doubled (\<open>He said "hi"\<close> becomes
  \<open>"He said ""hi"""\<close>); the third cell is \<open>formatDate\<close> of the invoice date and the
  fourth is the amount with its first dot turned into a comma.
\<close>

theorem entriesToCSV_format:
  "entriesToCSV es = csv_text es \<and>
   entriesToCSV [] =
     dq @ ''Lieferant'' @ dq @ '';'' @ dq @ ''Rechnungsnummer'' @ dq @ '';'' @
     dq @ ''Datum'' @ dq @ '';'' @ dq @ ''Betrag'' @ dq \<and>
   entriesToCSV (es @ [e]) =
     entriesToCSV es @ [CHR 0x0A] @
     escapeCell (vendor e) @ '';'' @ escapeCell (invoiceNumber e) @ '';'' @
     escapeCell (formatDate (invoiceDate e)) @ '';'' @ escapeCell (comma_amount (totalAmount e)) \<and>
   escapeCell v = dq @ concat (map (\<lambda>c. if c = CHR 0x22 then dq @ dq else [c]) v) @ dq \<and>
   escapeCell (''He said '' @ dq @ ''hi'' @ dq) = dq @ ''He said '' @ dq @ dq @ ''hi'' @ dq @ dq @ dq"
proof (intro conjI)
  show "entriesToCSV es = csv_text es" by (rule entriesToCSV_csv_text)
  show "entriesToCSV [] =
     dq @ ''Lieferant'' @ dq @ '';'' @ dq @ ''Rechnungsnummer'' @ dq @ '';'' @
     dq @ ''Datum'' @ dq @ '';'' @ dq @ ''Betrag'' @ dq"
    by (simp add: entriesToCSV_csv_text csv_text_def csv_header_def quote_cell_def dq_def)
  show "entriesToCSV (es @ [e]) =
     entriesToCSV es @ [CHR 0x0A] @
     escapeCell (vendor e) @ '';'' @ escapeCell (invoiceNumber e) @ '';'' @
     escapeCell (formatDate (invoiceDate e)) @ '';'' @ escapeCell (comma_amount (totalAmount e))"
    by (simp add: entriesToCSV_csv_text csv_text_def csv_row_def escapeCell_quote_cell)
  have "(\<lambda>c. if c = CHR 0x22 then dq @ dq else [c]) = (\<lambda>c. if c = CHR 0x22 then [c, c] else [c])"
    by (rule ext) (simp add: dq_def)
  then show "escapeCell v = dq @ concat (map (\<lambda>c. if c = CHR 0x22 then dq @ dq else [c]) v) @ dq"
    by (simp add: escapeCell_quote_cell quote_cell_def dq_def)
  show "escapeCell (''He said '' @ dq @ ''hi'' @ dq) = dq @ ''He said '' @ dq @ dq @ ''hi'' @ dq @ dq @ dq"
    by (simp add: escapeCell_def dq_def)
qed

theorem entriesToCSV_format_witness:
  "entriesToCSV [sample_entry, sample_entry\<lparr>vendor := [], invoiceDate := None, totalAmount := ''7''\<rparr>] =
     dq @ ''Lieferant'' @ dq @ '';'' @ dq @ ''Rechnungsnummer'' @ dq @ '';'' @
     dq @ ''Datum'' @ dq @ '';'' @ dq @ ''Betrag'' @ dq @ [CHR 0x0A] @
     dq @ ''ACME '' @ dq @ dq @ ''Nord'' @ dq @ dq @ dq @ '';'' @ dq @ ''INV-1'' @ dq @ '';'' @
     dq @ ''01.03.2024'' @ dq @ '';'' @ dq @ ''1234,50'' @ dq @ [CHR 0x0A] @
     dq @ dq @ '';'' @ dq @ ''INV-1'' @ dq @ '';'' @ dq @ ''N/A'' @ dq @ '';'' @ dq @ ''7'' @ dq"
proof -
  have f: "formatDate (Some ''2024-03-01'') = ''01.03.2024''"
    using formatDate_iso_date [OF iso_date_2024_03_01] by simp
  have n: "formatDate None = ''N/A''" by (simp add: formatDate_def)
  show ?thesis
    using entriesToCSV_format [of "[sample_entry, sample_entry\<lparr>vendor := [], invoiceDate := None, totalAmount := ''7''\<rparr>]"]
    by (simp add: csv_text_def csv_header_def csv_row_def quote_cell_def comma_amount_def
        sample_entry_def dq_def f n)
qed

section \<open>Claims about the upload log\<close>

lemma updateUploadLog_eq:
  "updateUploadLog now entry prev =
     merged_entry now entry prev # take 4 (filter (\<lambda>item. id' item \<noteq> p_id entry) prev)"
  by (simp add: updateUploadLog_def Let_def numeral_eq_Suc)

lemma merged_entry_id [simp]: "id' (merged_entry now entry prev) = p_id entry"
  by (simp add: merged_entry_def Let_def)

lemma updateUploadLog_ids:
  "map id' (updateUploadLog now entry prev) =
     p_id entry # take 4 (filter (\<lambda>i. i \<noteq> p_id entry) (map id' prev))"
  by (simp add: updateUploadLog_eq take_map filter_map comp_def)

lemma updateUploadLog_inv:
  assumes "distinct (map id' prev)"
  shows "length (updateUploadLog now entry prev) \<le> 5 \<and> distinct (map id' (updateUploadLog now entry prev))"
proof -
  have "length (updateUploadLog now entry prev) \<le> 5" by (simp add: updateUploadLog_eq)
  moreover have "distinct (take 4 (filter (\<lambda>i. i \<noteq> p_id entry) (map id' prev)))"
    using assms by (intro distinct_take distinct_filter)
  moreover have "p_id entry \<notin> set (take 4 (filter (\<lambda>i. i \<noteq> p_id entry) (map id' prev)))"
    using in_set_takeD by fastforce
  ultimately show ?thesis by (simp add: updateUploadLog_ids)
qed

lemma handleRenameUploadLog_ids:
  "map id' (handleRenameUploadLog prompt i prev) = map id' prev"
  by (auto simp: handleRenameUploadLog_def Let_def split: option.splits)

lemma handleRemoveUploadLog_inv:
  assumes "length prev \<le> 5" "distinct (map id' prev)"
  shows "length (handleRemoveUploadLog i prev) \<le> 5 \<and> distinct (map id' (handleRemoveUploadLog i prev))"
proof -
  have "length (filter (\<lambda>item. id' item \<noteq> i) prev) \<le> 5"
    by (rule order_trans [OF length_filter_le assms(1)])
  with assms(2) show ?thesis by (simp add: handleRemoveUploadLog_def distinct_map_filter)
qed

lemma log_step_inv:
  assumes "length l \<le> 5 \<and> distinct (map id' l)"
  shows "length (log_step l a) \<le> 5 \<and> distinct (map id' (log_step l a))"
proof (cases a)
  case (Upsert now entry)
  with assms updateUploadLog_inv show ?thesis by simp
next
  case (Rename prompt i)
  have "length (handleRenameUploadLog prompt i l) = length l"
    using handleRenameUploadLog_ids [of prompt i l] by (metis length_map)
  with Rename assms show ?thesis by (simp add: handleRenameUploadLog_ids)
next
  case (Remove i)
  with assms handleRemoveUploadLog_inv show ?thesis by simp
qed

lemma foldl_log_step_inv:
  "length l \<le> 5 \<and> distinct (map id' l) \<Longrightarrow>
   length (foldl log_step l acts) \<le> 5 \<and> distinct (map id' (foldl log_step l acts))"
proof (induction acts arbitrary: l)
  case Nil
  then show ?case by simp
next
  case (Cons a acts)
  from Cons.IH [OF log_step_inv [OF Cons.prems]] show ?case by simp
qed

lemma run_log_inv: "length (run_log acts) \<le> 5 \<and> distinct (map id' (run_log acts))"
  unfolding run_log_def by (rule foldl_log_step_inv) simp

lemma run_log_snoc: "run_log (acts @ [a]) = log_step (run_log acts) a"
  by (simp add: run_log_def)

lemma filter_rev_distinct:
  "x \<notin> set xs \<Longrightarrow> filter (\<lambda>i. i \<noteq> x) (take n xs) = take n xs"
  by (auto simp: filter_id_conv dest: in_set_takeD)

lemma upserts_distinct:
  assumes "distinct (map (\<lambda>x. p_id (snd x)) ps)"
  shows "map id' (run_log (map (\<lambda>(now, p). Upsert now p) ps)) = take 5 (rev (map (\<lambda>x. p_id (snd x)) ps))"
  using assms
proof (induction ps rule: rev_induct)
  case Nil
  show ?case by (simp add: run_log_def)
next
  case (snoc x ps)
  obtain now p where x: "x = (now, p)" by (cases x)
  have d: "distinct (map (\<lambda>x. p_id (snd x)) ps)" and n: "p_id p \<notin> set (rev (map (\<lambda>x. p_id (snd x)) ps))"
    using snoc.prems by (auto simp: x)
  have "map id' (run_log (map (\<lambda>(now, p). Upsert now p) (ps @ [x]))) =
        p_id p # take 4 (filter (\<lambda>i. i \<noteq> p_id p) (take 5 (rev (map (\<lambda>x. p_id (snd x)) ps))))"
    by (simp add: run_log_snoc x updateUploadLog_ids snoc.IH [OF d])
  also have "\<dots> = p_id p # take 4 (rev (map (\<lambda>x. p_id (snd x)) ps))"
    by (simp add: filter_rev_distinct [OF n] min_def)
  finally show ?case by (simp add: x numeral_eq_Suc)
qed


text \<open>
  C4. After every sequence of operations (upsert, rename, remove) on the log the
  application starts with, the log holds at most five entries and no two of them share an
  id. An upsert puts the merged entry first, drops any earlier entry of that id and keeps
  the first four of the others in their order; a rename changes no id and no position; a
  remove keeps the others in their order. So the log is ordered from the most recent
  upsert back, and upserts with distinct ids leave the last five ids, the latest first.
\<close>

theorem upload_log_bounded:
  "length (run_log acts) \<le> 5 \<and>
   distinct (map id' (run_log acts)) \<and>
   updateUploadLog now entry prev =
     merged_entry now entry prev # take 4 (filter (\<lambda>item. id' item \<noteq> p_id entry) prev) \<and>
   id' (merged_entry now entry prev) = p_id entry \<and>
   map id' (handleRenameUploadLog prompt i prev) = map id' prev \<and>
   map id' (handleRemoveUploadLog i prev) = filter (\<lambda>j. j \<noteq> i) (map id' prev) \<and>
   (distinct (map (\<lambda>x. p_id (snd x)) ps) \<longrightarrow>
      map id' (run_log (map (\<lambda>(now, p). Upsert now p) ps)) =
        take 5 (rev (map (\<lambda>x. p_id (snd x)) ps)))"
proof (intro conjI impI)
  show "length (run_log acts) \<le> 5" "distinct (map id' (run_log acts))"
    using run_log_inv [of acts] by simp_all
  show "updateUploadLog now entry prev =
     merged_entry now entry prev # take 4 (filter (\<lambda>item. id' item \<noteq> p_id entry) prev)"
    by (rule updateUploadLog_eq)
  show "id' (merged_entry now entry prev) = p_id entry" by simp
  show "map id' (handleRenameUploadLog prompt i prev) = map id' prev"
    by (rule handleRenameUploadLog_ids)
  show "map id' (handleRemoveUploadLog i prev) = filter (\<lambda>j. j \<noteq> i) (map id' prev)"
    by (simp add: handleRemoveUploadLog_def filter_map comp_def)
  assume "distinct (map (\<lambda>x. p_id (snd x)) ps)"
  then show "map id' (run_log (map (\<lambda>(now, p). Upsert now p) ps)) =
        take 5 (rev (map (\<lambda>x. p_id (snd x)) ps))"
    by (rule upserts_distinct)
qed

theorem upload_log_bounded_witness:
  "distinct [''1'', ''2'', ''3'', ''4'', ''5'', ''6''] \<and>
   map id' (run_log (map (\<lambda>i. Upsert ''t'' (only_id i)) [''1'', ''2'', ''3'', ''4'', ''5'', ''6''])) =
     [''6'', ''5'', ''4'', ''3'', ''2''] \<and>
   length (run_log (map (\<lambda>i. Upsert ''t'' (only_id i)) [''1'', ''2'', ''3'', ''4'', ''5'', ''6''])) = 5"
proof -
  define ps where "ps = map (\<lambda>i. (''t'', only_id i)) [''1'', ''2'', ''3'', ''4'', ''5'', ''6'']"
  have m: "map (\<lambda>(now, p). Upsert now p) ps =
           map (\<lambda>i. Upsert ''t'' (only_id i)) [''1'', ''2'', ''3'', ''4'', ''5'', ''6'']"
    by (simp add: ps_def)
  have i: "map (\<lambda>x. p_id (snd x)) ps = [''1'', ''2'', ''3'', ''4'', ''5'', ''6'']"
    by (simp add: ps_def only_id_def)
  have d: "distinct [''1'', ''2'', ''3'', ''4'', ''5'', ''6'']" by simp
  have "map id' (run_log (map (\<lambda>(now, p). Upsert now p) ps)) = [''6'', ''5'', ''4'', ''3'', ''2'']"
    using upload_log_bounded [of "[]" "''t''" "only_id ''1''" "[]" "\<lambda>_ _. None" "''1''" ps] d
    unfolding i by simp
  then have r: "map id' (run_log (map (\<lambda>i. Upsert ''t'' (only_id i)) [''1'', ''2'', ''3'', ''4'', ''5'', ''6''])) =
     [''6'', ''5'', ''4'', ''3'', ''2'']" unfolding m .
  from arg_cong [OF r, of length] d r show ?thesis by simp
qed

text \<open>
  C5. The entry an upsert puts first is the update merged with the entry of the same id,
  if the log has one: a field the update gives is taken from the update; a field it does
  not give is taken from the existing entry; with no existing entry the file name is
  empty, the display name is the update's file name, the status is pending, the timestamp
  is the current time and there is no message. The log then has this one entry of that id.
  So \<open>{id: X, fileName: "a.jpg"}\<close> followed by \<open>{id: X, status: "success"}\<close> leaves one
  entry of id \<open>X\<close>, with file name \<open>a.jpg\<close> and status success.
\<close>

theorem upsert_merge:
  "hd (updateUploadLog now p l) = merged_entry now p l \<and>
   filter (\<lambda>e. id' e = p_id p) (updateUploadLog now p l) = [merged_entry now p l] \<and>
   id' (merged_entry now p l) = p_id p \<and>
   fileName (merged_entry now p l) =
     (case p_fileName p of Some f \<Rightarrow> f
      | None \<Rightarrow> (case find (\<lambda>e. id' e = p_id p) l of Some e \<Rightarrow> fileName e | None \<Rightarrow> [])) \<and>
   displayName (merged_entry now p l) =
     (case p_displayName p of Some d \<Rightarrow> d
      | None \<Rightarrow> (case find (\<lambda>e. id' e = p_id p) l of Some e \<Rightarrow> displayName e
                  | None \<Rightarrow> (case p_fileName p of Some f \<Rightarrow> f | None \<Rightarrow> []))) \<and>
   status (merged_entry now p l) =
     (case p_status p of Some s \<Rightarrow> s
      | None \<Rightarrow> (case find (\<lambda>e. id' e = p_id p) l of Some e \<Rightarrow> status e | None \<Rightarrow> Pending)) \<and>
   timestamp (merged_entry now p l) =
     (case p_timestamp p of Some t \<Rightarrow> t
      | None \<Rightarrow> (case find (\<lambda>e. id' e = p_id p) l of Some e \<Rightarrow> timestamp e | None \<Rightarrow> now)) \<and>
   message (merged_entry now p l) =
     (case p_message p of Some m \<Rightarrow> Some m
      | None \<Rightarrow> (case find (\<lambda>e. id' e = p_id p) l of Some e \<Rightarrow> message e | None \<Rightarrow> None)) \<and>
   updateUploadLog now2 ((only_id X)\<lparr>p_status := Some Success\<rparr>)
     (updateUploadLog now1 ((only_id X)\<lparr>p_fileName := Some ''a.jpg''\<rparr>) []) =
     [\<lparr>id' = X, fileName = ''a.jpg'', displayName = ''a.jpg'', status = Success,
       timestamp = now1, message = None\<rparr>]"
proof (intro conjI)
  have nin: "filter (\<lambda>e. id' e = p_id p) (take 4 (filter (\<lambda>item. id' item \<noteq> p_id p) l)) = []"
    by (auto simp: filter_empty_conv dest: in_set_takeD)
  show "hd (updateUploadLog now p l) = merged_entry now p l" by (simp add: updateUploadLog_eq)
  show "filter (\<lambda>e. id' e = p_id p) (updateUploadLog now p l) = [merged_entry now p l]"
    by (simp add: updateUploadLog_eq nin)
  show "id' (merged_entry now p l) = p_id p" by simp
qed (simp_all add: merged_entry_def updateUploadLog_def only_id_def Let_def nullish_def
      or_default_def split: option.splits)

theorem upsert_merge_witness:
  "updateUploadLog ''t3'' ((only_id ''X'')\<lparr>p_status := Some Success\<rparr>)
     (updateUploadLog ''t2'' ((only_id ''X'')\<lparr>p_fileName := Some ''a.jpg''\<rparr>)
        (updateUploadLog ''t1'' ((only_id ''Y'')\<lparr>p_fileName := Some ''b.pdf'', p_status := Some Failed\<rparr>) [])) =
     [\<lparr>id' = ''X'', fileName = ''a.jpg'', displayName = ''a.jpg'', status = Success,
       timestamp = ''t2'', message = None\<rparr>,
      \<lparr>id' = ''Y'', fileName = ''b.pdf'', displayName = ''b.pdf'', status = Failed,
       timestamp = ''t1'', message = None\<rparr>]"
  using upsert_merge [of "''t3''" "(only_id ''X'')\<lparr>p_status := Some Success\<rparr>"
      "updateUploadLog ''t2'' ((only_id ''X'')\<lparr>p_fileName := Some ''a.jpg''\<rparr>)
        (updateUploadLog ''t1'' ((only_id ''Y'')\<lparr>p_fileName := Some ''b.pdf'', p_status := Some Failed\<rparr>) [])"]
  by (simp add: merged_entry_def updateUploadLog_def only_id_def Let_def nullish_def or_default_def)

section \<open>Properties of file sizes\<close>

lemma show_nat_digit: "n < 10 \<Longrightarrow> show_nat n = [''0123456789'' ! n]"
  by (subst show_nat.simps) simp

lemma show_nat_step:
  "10 \<le> n \<Longrightarrow> show_nat n = show_nat (n div 10) @ [''0123456789'' ! (n mod 10)]"
  by (subst show_nat.simps) simp

lemma size_unit_stop:
  "bytes < 1024 * 1024 ^ unitIndex \<or> 4 \<le> unitIndex \<Longrightarrow> size_unit bytes unitIndex = unitIndex"
  by (subst size_unit.simps) auto

lemma size_unit_step:
  "1024 * 1024 ^ unitIndex \<le> bytes \<Longrightarrow> unitIndex < 4 \<Longrightarrow>
   size_unit bytes unitIndex = size_unit bytes (unitIndex + 1)"
  by (subst size_unit.simps) simp

lemma show_nat_500: "show_nat 500 = ''500''"
  by (simp add: show_nat_step show_nat_digit)

lemma formatFileSize_10240: "formatFileSize 10240 = ''10 KB''"
proof -
  have "size_unit 10240 0 = size_unit 10240 1" using size_unit_step [of 0 10240] by simp
  also have "\<dots> = 1" by (rule size_unit_stop) simp
  finally have u: "size_unit 10240 0 = 1" .
  show ?thesis
    by (simp add: formatFileSize_def toFixed_def u show_nat_step show_nat_digit)
qed

section \<open>Claims about the submission pipeline\<close>

lemma processFile_unconfigured:
  "webhookUrl (settings st) = [] \<Longrightarrow> processFile host file st = st\<lparr>error := Some no_webhook_message\<rparr>"
  by (simp add: processFile_def)

text \<open>
  C6. With an empty webhook URL \<open>processFile\<close> only sets the error text of the
  application to the message that no webhook is configured: the upload log, the record
  store and the list of requests sent are what they were, and so is everything else.
\<close>

theorem processFile_no_webhook:
  "webhookUrl (settings st) = [] \<Longrightarrow>
   processFile host file st = st\<lparr>error := Some no_webhook_message\<rparr> \<and>
   error (processFile host file st) = Some no_webhook_message \<and>
   uploadLog (processFile host file st) = uploadLog st \<and>
   entries (processFile host file st) = entries st \<and>
   requests (processFile host file st) = requests st \<and>
   isLoading (processFile host file st) = isLoading st"
  by (simp add: processFile_unconfigured)

theorem processFile_no_webhook_witness:
  "webhookUrl (settings (sample_state\<lparr>settings := \<lparr>webhookUrl = [], theme = Dark\<rparr>\<rparr>)) = [] \<and>
   error (processFile host_500 sample_file (sample_state\<lparr>settings := \<lparr>webhookUrl = [], theme = Dark\<rparr>\<rparr>)) =
     Some no_webhook_message \<and>
   uploadLog (processFile host_500 sample_file (sample_state\<lparr>settings := \<lparr>webhookUrl = [], theme = Dark\<rparr>\<rparr>)) = [] \<and>
   entries (processFile host_500 sample_file (sample_state\<lparr>settings := \<lparr>webhookUrl = [], theme = Dark\<rparr>\<rparr>)) =
     [sample_entry] \<and>
   requests (processFile host_500 sample_file (sample_state\<lparr>settings := \<lparr>webhookUrl = [], theme = Dark\<rparr>\<rparr>)) = []"
  using processFile_no_webhook [of "sample_state\<lparr>settings := \<lparr>webhookUrl = [], theme = Dark\<rparr>\<rparr>" host_500 sample_file]
  by (simp add: sample_state_def)

lemma processFile_failed:
  assumes w: "webhookUrl (settings st) \<noteq> []"
    and r: "read_payload host (submit_request file st) = Inl e"
  shows "processFile host file st =
     st\<lparr>isLoading := False, error := Some (error_message e),
        requests := requests st @ [submit_request file st],
        uploadLog :=
          updateUploadLog (iso_finished host)
            \<lparr>p_id = log_id host file, p_fileName = Some (file_name file), p_displayName = None,
             p_status = Some Failed, p_timestamp = Some (iso_finished host),
             p_message = Some (meta_label file @ '' | '' @ error_message e)\<rparr>
            (updateUploadLog (iso_started host) (pending_entry host file) (uploadLog st))\<rparr>"
  using w r
  by (simp add: processFile_def Let_def submit_request_def pending_entry_def meta_label_def)

lemma failed_head:
  "hd (updateUploadLog t2
         \<lparr>p_id = i, p_fileName = Some n, p_displayName = None, p_status = Some Failed,
          p_timestamp = Some t2, p_message = Some m\<rparr>
         (updateUploadLog t1
            \<lparr>p_id = i, p_fileName = Some n, p_displayName = Some n, p_status = Some Pending,
             p_timestamp = Some t1, p_message = Some m0\<rparr> l)) =
   \<lparr>id' = i, fileName = n, displayName = n, status = Failed, timestamp = t2, message = Some m\<rparr>"
  by (simp add: updateUploadLog_eq merged_entry_def Let_def nullish_def or_default_def)

lemma updateUploadLog_one_per_id:
  "filter (\<lambda>x. id' x = p_id p) (updateUploadLog now p l) = [hd (updateUploadLog now p l)]"
proof -
  have "filter (\<lambda>e. id' e = p_id p) (take 4 (filter (\<lambda>item. id' item \<noteq> p_id p) l)) = []"
    by (auto simp: filter_empty_conv dest: in_set_takeD)
  then show ?thesis by (simp add: updateUploadLog_eq)
qed

lemma js_includes_append: "js_includes (a @ b) b"
proof (induction a)
  case Nil
  have "starts_with b b" by (induction b) auto
  then show ?case by (cases b) auto
next
  case (Cons x a)
  then show ?case by simp
qed


lemma read_payload_failures:
  "read_payload host request = Inl e \<longleftrightarrow>
     fetch host request = Rejected e \<or>
     (\<exists>r. fetch host request = Resolved r \<and>
        (\<not> response_ok r \<and>
           e = JsError (''Webhook antwortete mit Status '' @ show_nat (resp_status r)) \<or>
         response_ok r \<and> js_includes (content_type_of r) ''application/json'' \<and>
           resp_json r = Inl e \<or>
         response_ok r \<and> \<not> js_includes (content_type_of r) ''application/json'' \<and>
           (resp_text r = Inl e \<or>
            resp_text r = Inr [] \<and> e = JsError ''Server lieferte eine leere Antwort.'' \<or>
            (\<exists>t. resp_text r = Inr t \<and> t \<noteq> [] \<and> JSON_parse host t = None \<and>
               e = JsError ''Antwort konnte nicht als JSON gelesen werden.''))))"
  by (auto simp: read_payload_def Let_def split: fetch_result.splits sum.splits option.splits)

text \<open>
  C7. When the submission fails after the pending entry has been logged, the log gets, for
  the id of this submission and over the pending entry, an entry of status error whose
  message is the MIME type and size followed by \<open>" | "\<close> and the failure's message; the
  application's error text is that message; the record store and the last result are
  untouched and the busy flag is cleared. The failures are: the request is rejected; the
  status is not 2xx; under a JSON content type, \<open>response.json()\<close> fails; under any other
  content type, \<open>response.text()\<close> fails, the body is empty, or the body is not JSON. There
  are no others. For a webhook that answers with status 500 the message is
  \<open>Webhook antwortete mit Status 500\<close>.
\<close>

theorem submission_failure:
  assumes w: "webhookUrl (settings st) \<noteq> []"
  shows
   "(read_payload host (submit_request file st) = Inl e \<longrightarrow>
       entries (processFile host file st) = entries st \<and>
       lastResult (processFile host file st) = lastResult st \<and>
       error (processFile host file st) = Some (error_message e) \<and>
       isLoading (processFile host file st) = False \<and>
       requests (processFile host file st) = requests st @ [submit_request file st] \<and>
       hd (updateUploadLog (iso_started host) (pending_entry host file) (uploadLog st)) =
         \<lparr>id' = log_id host file, fileName = file_name file, displayName = file_name file,
          status = Pending, timestamp = iso_started host,
          message = Some (''Upload gestartet ('' @ meta_label file @ '')'')\<rparr> \<and>
       hd (uploadLog (processFile host file st)) =
         \<lparr>id' = log_id host file, fileName = file_name file, displayName = file_name file,
          status = Failed, timestamp = iso_finished host,
          message = Some (meta_label file @ '' | '' @ error_message e)\<rparr> \<and>
       filter (\<lambda>x. id' x = log_id host file) (uploadLog (processFile host file st)) =
         [hd (uploadLog (processFile host file st))]) \<and>
    (fetch host (submit_request file st) = Rejected e \<longrightarrow>
       read_payload host (submit_request file st) = Inl e) \<and>
    (fetch host (submit_request file st) = Resolved r \<and> \<not> response_ok r \<longrightarrow>
       read_payload host (submit_request file st) =
         Inl (JsError (''Webhook antwortete mit Status '' @ show_nat (resp_status r)))) \<and>
    (fetch host (submit_request file st) = Resolved r \<and> response_ok r \<and>
     js_includes (content_type_of r) ''application/json'' \<longrightarrow>
       read_payload host (submit_request file st) = resp_json r) \<and>
    (fetch host (submit_request file st) = Resolved r \<and> response_ok r \<and>
     js_includes (content_type_of r) ''application/json'' \<and> resp_json r = Inl e \<longrightarrow>
       read_payload host (submit_request file st) = Inl e \<and>
       error (processFile host file st) = Some (error_message e) \<and>
       status (hd (uploadLog (processFile host file st))) = Failed \<and>
       message (hd (uploadLog (processFile host file st))) =
         Some (meta_label file @ '' | '' @ error_message e) \<and>
       entries (processFile host file st) = entries st) \<and>
    (fetch host (submit_request file st) = Resolved r \<and> response_ok r \<and>
     \<not> js_includes (content_type_of r) ''application/json'' \<and> resp_text r = Inl e \<longrightarrow>
       read_payload host (submit_request file st) = Inl e) \<and>
    (fetch host (submit_request file st) = Resolved r \<and> response_ok r \<and>
     \<not> js_includes (content_type_of r) ''application/json'' \<and> resp_text r = Inr [] \<longrightarrow>
       read_payload host (submit_request file st) =
         Inl (JsError ''Server lieferte eine leere Antwort.'')) \<and>
    (fetch host (submit_request file st) = Resolved r \<and> response_ok r \<and>
     \<not> js_includes (content_type_of r) ''application/json'' \<and> resp_text r = Inr t \<and> t \<noteq> [] \<and>
     JSON_parse host t = None \<longrightarrow>
       read_payload host (submit_request file st) =
         Inl (JsError ''Antwort konnte nicht als JSON gelesen werden.'')) \<and>
    (read_payload host (submit_request file st) = Inl e \<longrightarrow>
       fetch host (submit_request file st) = Rejected e \<or>
       (\<exists>r. fetch host (submit_request file st) = Resolved r \<and>
          (\<not> response_ok r \<and>
             e = JsError (''Webhook antwortete mit Status '' @ show_nat (resp_status r)) \<or>
           response_ok r \<and> js_includes (content_type_of r) ''application/json'' \<and>
             resp_json r = Inl e \<or>
           response_ok r \<and> \<not> js_includes (content_type_of r) ''application/json'' \<and>
             (resp_text r = Inl e \<or>
              resp_text r = Inr [] \<and> e = JsError ''Server lieferte eine leere Antwort.'' \<or>
              (\<exists>t. resp_text r = Inr t \<and> t \<noteq> [] \<and> JSON_parse host t = None \<and>
                 e = JsError ''Antwort konnte nicht als JSON gelesen werden.''))))) \<and>
    (fetch host (submit_request file st) = Resolved r \<and> resp_status r = 500 \<longrightarrow>
       error (processFile host file st) = Some ''Webhook antwortete mit Status 500'' \<and>
       js_includes ''Webhook antwortete mit Status 500'' ''500'' \<and>
       status (hd (uploadLog (processFile host file st))) = Failed \<and>
       message (hd (uploadLog (processFile host file st))) =
         Some (meta_label file @ '' | Webhook antwortete mit Status 500'') \<and>
       entries (processFile host file st) = entries st)"
proof -
  have fail: "entries (processFile host file st) = entries st \<and>
       lastResult (processFile host file st) = lastResult st \<and>
       error (processFile host file st) = Some (error_message e) \<and>
       isLoading (processFile host file st) = False \<and>
       requests (processFile host file st) = requests st @ [submit_request file st] \<and>
       hd (updateUploadLog (iso_started host) (pending_entry host file) (uploadLog st)) =
         \<lparr>id' = log_id host file, fileName = file_name file, displayName = file_name file,
          status = Pending, timestamp = iso_started host,
          message = Some (''Upload gestartet ('' @ meta_label file @ '')'')\<rparr> \<and>
       hd (uploadLog (processFile host file st)) =
         \<lparr>id' = log_id host file, fileName = file_name file, displayName = file_name file,
          status = Failed, timestamp = iso_finished host,
          message = Some (meta_label file @ '' | '' @ error_message e)\<rparr> \<and>
       filter (\<lambda>x. id' x = log_id host file) (uploadLog (processFile host file st)) =
         [hd (uploadLog (processFile host file st))]"
    if r: "read_payload host (submit_request file st) = Inl e" for e
  proof -
    note pf = processFile_failed [OF w r]
    have h: "hd (uploadLog (processFile host file st)) =
         \<lparr>id' = log_id host file, fileName = file_name file, displayName = file_name file,
          status = Failed, timestamp = iso_finished host,
          message = Some (meta_label file @ '' | '' @ error_message e)\<rparr>"
      unfolding pf by (simp add: pending_entry_def failed_head)
    have p: "hd (updateUploadLog (iso_started host) (pending_entry host file) (uploadLog st)) =
         \<lparr>id' = log_id host file, fileName = file_name file, displayName = file_name file,
          status = Pending, timestamp = iso_started host,
          message = Some (''Upload gestartet ('' @ meta_label file @ '')'')\<rparr>"
      by (simp add: updateUploadLog_eq merged_entry_def pending_entry_def Let_def nullish_def
          or_default_def)
    have f: "filter (\<lambda>x. id' x = log_id host file) (uploadLog (processFile host file st)) =
         [hd (uploadLog (processFile host file st))]"
      unfolding pf
      using updateUploadLog_one_per_id [of
          "\<lparr>p_id = log_id host file, p_fileName = Some (file_name file), p_displayName = None,
            p_status = Some Failed, p_timestamp = Some (iso_finished host),
            p_message = Some (meta_label file @ '' | '' @ error_message e)\<rparr>"
          "iso_finished host"
          "updateUploadLog (iso_started host) (pending_entry host file) (uploadLog st)"]
      by simp
    show ?thesis using h p f by (simp add: pf)
  qed
  have rej: "read_payload host (submit_request file st) = Inl e"
    if "fetch host (submit_request file st) = Rejected e"
    using that by (simp add: read_payload_def)
  have st: "read_payload host (submit_request file st) =
         Inl (JsError (''Webhook antwortete mit Status '' @ show_nat (resp_status r)))"
    if "fetch host (submit_request file st) = Resolved r" "\<not> response_ok r" for r
    using that by (simp add: read_payload_def)
  have jb: "read_payload host (submit_request file st) = resp_json r"
    if "fetch host (submit_request file st) = Resolved r" "response_ok r"
       "js_includes (content_type_of r) ''application/json''"
    using that by (simp add: read_payload_def Let_def)
  have jf: "read_payload host (submit_request file st) = Inl e \<and>
       error (processFile host file st) = Some (error_message e) \<and>
       status (hd (uploadLog (processFile host file st))) = Failed \<and>
       message (hd (uploadLog (processFile host file st))) =
         Some (meta_label file @ '' | '' @ error_message e) \<and>
       entries (processFile host file st) = entries st"
    if a: "fetch host (submit_request file st) = Resolved r" "response_ok r"
       "js_includes (content_type_of r) ''application/json''" "resp_json r = Inl e"
  proof -
    have rp: "read_payload host (submit_request file st) = Inl e"
      using jb [OF a(1-3)] a(4) by simp
    from fail [OF rp] rp show ?thesis by simp
  qed
  have tf: "read_payload host (submit_request file st) = Inl e"
    if "fetch host (submit_request file st) = Resolved r" "response_ok r"
       "\<not> js_includes (content_type_of r) ''application/json''" "resp_text r = Inl e"
    using that by (simp add: read_payload_def Let_def)
  have em: "read_payload host (submit_request file st) =
         Inl (JsError ''Server lieferte eine leere Antwort.'')"
    if "fetch host (submit_request file st) = Resolved r" "response_ok r"
       "\<not> js_includes (content_type_of r) ''application/json''" "resp_text r = Inr []"
    using that by (simp add: read_payload_def Let_def)
  have js: "read_payload host (submit_request file st) =
         Inl (JsError ''Antwort konnte nicht als JSON gelesen werden.'')"
    if "fetch host (submit_request file st) = Resolved r" "response_ok r"
       "\<not> js_includes (content_type_of r) ''application/json''" "resp_text r = Inr t" "t \<noteq> []"
       "JSON_parse host t = None"
    using that by (simp add: read_payload_def Let_def)
  have all: "fetch host (submit_request file st) = Rejected e \<or>
       (\<exists>r. fetch host (submit_request file st) = Resolved r \<and>
          (\<not> response_ok r \<and>
             e = JsError (''Webhook antwortete mit Status '' @ show_nat (resp_status r)) \<or>
           response_ok r \<and> js_includes (content_type_of r) ''application/json'' \<and>
             resp_json r = Inl e \<or>
           response_ok r \<and> \<not> js_includes (content_type_of r) ''application/json'' \<and>
             (resp_text r = Inl e \<or>
              resp_text r = Inr [] \<and> e = JsError ''Server lieferte eine leere Antwort.'' \<or>
              (\<exists>t. resp_text r = Inr t \<and> t \<noteq> [] \<and> JSON_parse host t = None \<and>
                 e = JsError ''Antwort konnte nicht als JSON gelesen werden.''))))"
    if "read_payload host (submit_request file st) = Inl e"
    using that by (simp only: read_payload_failures)
  have s500: "error (processFile host file st) = Some ''Webhook antwortete mit Status 500'' \<and>
       js_includes ''Webhook antwortete mit Status 500'' ''500'' \<and>
       status (hd (uploadLog (processFile host file st))) = Failed \<and>
       message (hd (uploadLog (processFile host file st))) =
         Some (meta_label file @ '' | Webhook antwortete mit Status 500'') \<and>
       entries (processFile host file st) = entries st"
    if a: "fetch host (submit_request file st) = Resolved r" "resp_status r = 500"
  proof -
    have "\<not> response_ok r" using a(2) by (simp add: response_ok_def)
    from st [OF a(1) this] a(2)
    have rp: "read_payload host (submit_request file st) =
                Inl (JsError ''Webhook antwortete mit Status 500'')"
      by (simp add: show_nat_500)
    have "js_includes (''Webhook antwortete mit Status '' @ ''500'') ''500''"
      by (rule js_includes_append)
    then show ?thesis using fail [OF rp] by (simp add: error_message_def)
  qed
  show ?thesis
    apply (intro conjI impI)
    subgoal using fail by blast
    subgoal using fail by blast
    subgoal using fail by blast
    subgoal using fail by blast
    subgoal using fail by blast
    subgoal using fail by blast
    subgoal using fail by blast
    subgoal using fail by blast
    subgoal using rej by blast
    subgoal using st by blast
    subgoal using jb by blast
    subgoal using jf by blast
    subgoal using jf by blast
    subgoal using jf by blast
    subgoal using jf by blast
    subgoal using jf by blast
    subgoal using tf by blast
    subgoal using em by blast
    subgoal using js by blast
    subgoal using all by blast
    subgoal using s500 by blast
    subgoal using s500 by blast
    subgoal using s500 by blast
    subgoal using s500 by blast
    subgoal using s500 by blast
    done
qed

theorem submission_failure_witness:
  "webhookUrl (settings sample_state) \<noteq> [] \<and>
   fetch host_500 (submit_request sample_file sample_state) =
     Resolved \<lparr>resp_status = 500, resp_content_type = Some ''text/plain'',
               resp_json = Inl (JsError ''Unexpected end of JSON input''), resp_text = Inr []\<rparr> \<and>
   error (processFile host_500 sample_file sample_state) = Some ''Webhook antwortete mit Status 500'' \<and>
   status (hd (uploadLog (processFile host_500 sample_file sample_state))) = Failed \<and>
   message (hd (uploadLog (processFile host_500 sample_file sample_state))) =
     Some ''image/jpeg | 10 KB | Webhook antwortete mit Status 500'' \<and>
   entries (processFile host_500 sample_file sample_state) = [sample_entry] \<and>
   fetch host_bad_json (submit_request sample_file sample_state) =
     Resolved \<lparr>resp_status = 200, resp_content_type = Some ''application/json; charset=utf-8'',
               resp_json = Inl (JsError ''Unexpected end of JSON input''), resp_text = Inr []\<rparr> \<and>
   response_ok \<lparr>resp_status = 200, resp_content_type = Some ''application/json; charset=utf-8'',
               resp_json = Inl (JsError ''Unexpected end of JSON input''), resp_text = Inr []\<rparr> \<and>
   js_includes ''application/json; charset=utf-8'' ''application/json'' \<and>
   read_payload host_bad_json (submit_request sample_file sample_state) =
     Inl (JsError ''Unexpected end of JSON input'') \<and>
   error (processFile host_bad_json sample_file sample_state) = Some ''Unexpected end of JSON input'' \<and>
   status (hd (uploadLog (processFile host_bad_json sample_file sample_state))) = Failed \<and>
   message (hd (uploadLog (processFile host_bad_json sample_file sample_state))) =
     Some ''image/jpeg | 10 KB | Unexpected end of JSON input'' \<and>
   entries (processFile host_bad_json sample_file sample_state) = [sample_entry]"
proof -
  have w: "webhookUrl (settings sample_state) \<noteq> []" by (simp add: sample_state_def)
  have f: "fetch host_500 (submit_request sample_file sample_state) =
     Resolved \<lparr>resp_status = 500, resp_content_type = Some ''text/plain'',
               resp_json = Inl (JsError ''Unexpected end of JSON input''), resp_text = Inr []\<rparr>"
    by (simp add: host_500_def)
  have g: "fetch host_bad_json (submit_request sample_file sample_state) =
     Resolved \<lparr>resp_status = 200, resp_content_type = Some ''application/json; charset=utf-8'',
               resp_json = Inl (JsError ''Unexpected end of JSON input''), resp_text = Inr []\<rparr>"
    by (simp add: host_bad_json_def)
  have ok: "response_ok \<lparr>resp_status = 200,
               resp_content_type = Some ''application/json; charset=utf-8'',
               resp_json = Inl (JsError ''Unexpected end of JSON input''), resp_text = Inr []\<rparr>"
    by (simp add: response_ok_def)
  have inc: "js_includes ''application/json; charset=utf-8'' ''application/json''" by simp
  have ct: "content_type_of \<lparr>resp_status = 200,
               resp_content_type = Some ''application/json; charset=utf-8'',
               resp_json = Inl (JsError ''Unexpected end of JSON input''), resp_text = Inr []\<rparr> =
            ''application/json; charset=utf-8''"
    by (simp add: content_type_of_def js_or_def)
  have m: "meta_label sample_file = ''image/jpeg | 10 KB''"
    by (simp add: meta_label_def sample_file_def js_or_def formatFileSize_10240)
  have e: "entries sample_state = [sample_entry]" by (simp add: sample_state_def)
  have 1: "error (processFile host_500 sample_file sample_state) = Some ''Webhook antwortete mit Status 500'' \<and>
   status (hd (uploadLog (processFile host_500 sample_file sample_state))) = Failed \<and>
   message (hd (uploadLog (processFile host_500 sample_file sample_state))) =
     Some ''image/jpeg | 10 KB | Webhook antwortete mit Status 500'' \<and>
   entries (processFile host_500 sample_file sample_state) = [sample_entry]"
    using submission_failure [OF w, of host_500 sample_file _
      "\<lparr>resp_status = 500, resp_content_type = Some ''text/plain'',
        resp_json = Inl (JsError ''Unexpected end of JSON input''), resp_text = Inr []\<rparr>"] f m e
    by simp
  have 2: "read_payload host_bad_json (submit_request sample_file sample_state) =
     Inl (JsError ''Unexpected end of JSON input'') \<and>
   error (processFile host_bad_json sample_file sample_state) = Some ''Unexpected end of JSON input'' \<and>
   status (hd (uploadLog (processFile host_bad_json sample_file sample_state))) = Failed \<and>
   message (hd (uploadLog (processFile host_bad_json sample_file sample_state))) =
     Some ''image/jpeg | 10 KB | Unexpected end of JSON input'' \<and>
   entries (processFile host_bad_json sample_file sample_state) = [sample_entry]"
    using submission_failure [OF w, of host_bad_json sample_file
      "JsError ''Unexpected end of JSON input''"
      "\<lparr>resp_status = 200, resp_content_type = Some ''application/json; charset=utf-8'',
        resp_json = Inl (JsError ''Unexpected end of JSON input''), resp_text = Inr []\<rparr>"]
      g ok ct m e
    by (simp add: error_message_def)
  from w f g ok inc 1 2 show ?thesis by simp
qed

section \<open>Claims about webhook URLs\<close>

lemma url_scheme_ftp: "url_scheme (url_preprocess ''ftp://x'') = Some (''ftp'', ''//x'')"
  by (simp add: url_preprocess_def url_scheme_def is_c0_or_space_def is_tab_or_newline_def
      is_ascii_alpha_def is_scheme_char_def is_digit_def to_lower_def lower_letters_def
      upper_letters_def)

lemma url_scheme_https:
  "url_scheme (url_preprocess ''https://x.com/hook'') = Some (''https'', ''//x.com/hook'')"
  by (simp add: url_preprocess_def url_scheme_def is_c0_or_space_def is_tab_or_newline_def
      is_ascii_alpha_def is_scheme_char_def is_digit_def to_lower_def lower_letters_def
      upper_letters_def)

lemma validateWebhookUrl_iff:
  "validateWebhookUrl rest_ok url \<longleftrightarrow>
     url \<noteq> [] \<and>
     (\<exists>scheme rest. url_scheme (url_preprocess url) = Some (scheme, rest) \<and> rest_ok scheme rest \<and>
        (scheme = ''https'' \<or> scheme = ''http''))"
  by (auto simp: validateWebhookUrl_def new_URL_def split: option.splits)

text \<open>
  C8. \<open>validateWebhookUrl\<close> is true exactly when the URL is not empty, \<open>new URL\<close>
  parses it (as an absolute URL: there is no base) and the protocol of the result is
  \<open>https:\<close> or \<open>http:\<close>, that is, the scheme read from the input is \<open>https\<close> or
  \<open>http\<close> and the rest parses. Every parse failure and every other scheme give false,
  whatever the host makes of the rest: \<open>ftp://x\<close> and the empty string are false, and
  \<open>https://x.com/hook\<close> is true on every host that parses it.
\<close>

theorem validateWebhookUrl_http_https:
  "(validateWebhookUrl rest_ok url \<longleftrightarrow>
      url \<noteq> [] \<and>
      (\<exists>parsed. new_URL rest_ok url = Some parsed \<and>
         (protocol parsed = ''https:'' \<or> protocol parsed = ''http:''))) \<and>
   (validateWebhookUrl rest_ok url \<longleftrightarrow>
      url \<noteq> [] \<and>
      (\<exists>scheme rest. url_scheme (url_preprocess url) = Some (scheme, rest) \<and> rest_ok scheme rest \<and>
         (scheme = ''https'' \<or> scheme = ''http''))) \<and>
   (new_URL rest_ok url = None \<longrightarrow> \<not> validateWebhookUrl rest_ok url) \<and>
   \<not> validateWebhookUrl rest_ok ''ftp://x'' \<and>
   \<not> validateWebhookUrl rest_ok [] \<and>
   (rest_ok ''https'' ''//x.com/hook'' \<longrightarrow> validateWebhookUrl rest_ok ''https://x.com/hook'')"
proof (intro conjI impI)
  show "validateWebhookUrl rest_ok url \<longleftrightarrow>
      url \<noteq> [] \<and>
      (\<exists>parsed. new_URL rest_ok url = Some parsed \<and>
         (protocol parsed = ''https:'' \<or> protocol parsed = ''http:''))"
    by (auto simp: validateWebhookUrl_def split: option.splits)
  show "validateWebhookUrl rest_ok url \<longleftrightarrow>
      url \<noteq> [] \<and>
      (\<exists>scheme rest. url_scheme (url_preprocess url) = Some (scheme, rest) \<and> rest_ok scheme rest \<and>
         (scheme = ''https'' \<or> scheme = ''http''))"
    by (rule validateWebhookUrl_iff)
  show "\<not> validateWebhookUrl rest_ok ''ftp://x''"
    by (simp add: validateWebhookUrl_iff url_scheme_ftp)
  show "\<not> validateWebhookUrl rest_ok []" by (simp add: validateWebhookUrl_def)
next
  assume "new_URL rest_ok url = None"
  then show "\<not> validateWebhookUrl rest_ok url" by (simp add: validateWebhookUrl_def)
next
  assume "rest_ok ''https'' ''//x.com/hook''"
  then show "validateWebhookUrl rest_ok ''https://x.com/hook''"
    by (simp add: validateWebhookUrl_iff url_scheme_https)
qed

theorem validateWebhookUrl_http_https_witness:
  "validateWebhookUrl (\<lambda>scheme rest. rest = ''//x.com/hook'') ''https://x.com/hook'' \<and>
   \<not> validateWebhookUrl (\<lambda>scheme rest. rest = ''//x.com/hook'') ''ftp://x.com/hook'' \<and>
   \<not> validateWebhookUrl (\<lambda>scheme rest. rest = ''//x.com/hook'') ''x.com/hook'' \<and>
   new_URL (\<lambda>scheme rest. rest = ''//x.com/hook'') ''x.com/hook'' = None"
proof -
  have n: "new_URL (\<lambda>scheme rest. rest = ''//x.com/hook'') ''x.com/hook'' = None"
    by (simp add: new_URL_def url_preprocess_def url_scheme_def is_c0_or_space_def
        is_tab_or_newline_def is_ascii_alpha_def is_scheme_char_def is_digit_def to_lower_def
        lower_letters_def upper_letters_def)
  have f: "url_scheme (url_preprocess ''ftp://x.com/hook'') = Some (''ftp'', ''//x.com/hook'')"
    by (simp add: url_preprocess_def url_scheme_def is_c0_or_space_def is_tab_or_newline_def
      is_ascii_alpha_def is_scheme_char_def is_digit_def to_lower_def lower_letters_def
      upper_letters_def)
  note t1 = validateWebhookUrl_http_https [of "\<lambda>scheme rest. rest = ''//x.com/hook''" "''x.com/hook''"]
  note t2 = validateWebhookUrl_http_https [of "\<lambda>scheme rest. rest = ''//x.com/hook''" "''ftp://x.com/hook''"]
  from t1 have a: "new_URL (\<lambda>scheme rest. rest = ''//x.com/hook'') ''x.com/hook'' = None \<longrightarrow>
                   \<not> validateWebhookUrl (\<lambda>scheme rest. rest = ''//x.com/hook'') ''x.com/hook''"
    by blast
  from t1 have b: "validateWebhookUrl (\<lambda>scheme rest. rest = ''//x.com/hook'') ''https://x.com/hook''"
    by simp
  from t2 have c: "validateWebhookUrl (\<lambda>scheme rest. rest = ''//x.com/hook'') ''ftp://x.com/hook'' \<longleftrightarrow>
      ''ftp://x.com/hook'' \<noteq> [] \<and>
      (\<exists>scheme rest. url_scheme (url_preprocess ''ftp://x.com/hook'') = Some (scheme, rest) \<and>
         rest = ''//x.com/hook'' \<and> (scheme = ''https'' \<or> scheme = ''http''))"
    by blast
  have "\<not> validateWebhookUrl (\<lambda>scheme rest. rest = ''//x.com/hook'') ''ftp://x.com/hook''"
    unfolding c f by simp
  with a b n show ?thesis by simp
qed

section \<open>Claims about editing a record\<close>

lemma parseGermanDate_nonempty: "parseGermanDate env x \<noteq> Some []"
proof
  assume a: "parseGermanDate env x = Some []"
  then obtain s where "x = Some s" by (cases x) (auto simp: parseGermanDate_def)
  with parseGermanDate_sound [of env s "[]"] a show False by auto
qed

lemma handleSave_cases:
  "handleSave env entry draft =
     (if d_invoiceDate draft \<noteq> [] \<and> parseGermanDate env (Some (d_invoiceDate draft)) = None
      then Blocked date_error_message else Saved (edited env entry draft))"
  using parseGermanDate_nonempty [of env "Some (d_invoiceDate draft)"]
  by (auto simp: handleSave_def edited_def falsy_def Let_def)

lemma edited_key [simp]:
  "capturedAt (edited env entry draft) = capturedAt entry"
  "imageName (edited env entry draft) = imageName entry"
  by (simp_all add: edited_def)

lemma spread_eq [simp]: "spread a b = b"
  by (simp add: spread_def)

lemma map_update_distinct:
  assumes "distinct (map f xs)" "i < length xs"
  shows "map (\<lambda>x. if f x = f (xs ! i) then y else x) xs = xs[i := y]"
proof (rule nth_equalityI)
  show "length (map (\<lambda>x. if f x = f (xs ! i) then y else x) xs) = length (xs[i := y])" by simp
next
  fix j assume "j < length (map (\<lambda>x. if f x = f (xs ! i) then y else x) xs)"
  then have j: "j < length xs" by simp
  have "f (xs ! j) = f (xs ! i) \<longleftrightarrow> j = i"
    using assms j nth_eq_iff_index_eq [of "map f xs" j i] by auto
  with j assms(2) show "map (\<lambda>x. if f x = f (xs ! i) then y else x) xs ! j = xs[i := y] ! j"
    by (auto simp: nth_list_update)
qed

text \<open>
  C9. A user edit either is blocked, when the date field is not empty and
  \<open>parseGermanDate\<close> rejects it, and then leaves the state as it was; or it rewrites
  the record store and nothing else of it changes: the store keeps its length, every entry
  keeps its \<open>capturedAt\<close>, every entry with another \<open>capturedAt\<close> than the edited one is
  unchanged, and the edited entry keeps its \<open>imageName\<close>. With \<open>capturedAt\<close> the unique
  key of the store, the new store is the old one with the edited entry replaced by itself
  with only \<open>vendor\<close>, \<open>invoiceNumber\<close>, \<open>invoiceDate\<close> and \<open>totalAmount\<close> set anew.
\<close>

theorem user_edit_frame:
  "(d_invoiceDate draft \<noteq> [] \<and> parseGermanDate env (Some (d_invoiceDate draft)) = None \<longrightarrow>
      edit_entry env entry draft st = st) \<and>
   length (entries (edit_entry env entry draft st)) = length (entries st) \<and>
   map capturedAt (entries (edit_entry env entry draft st)) = map capturedAt (entries st) \<and>
   (\<forall>j < length (entries st).
      (capturedAt (entries st ! j) \<noteq> capturedAt entry \<longrightarrow>
         entries (edit_entry env entry draft st) ! j = entries st ! j) \<and>
      (entries st ! j = entry \<longrightarrow>
         imageName (entries (edit_entry env entry draft st) ! j) = imageName entry \<and>
         capturedAt (entries (edit_entry env entry draft st) ! j) = capturedAt entry)) \<and>
   (distinct (map capturedAt (entries st)) \<and> i < length (entries st) \<and> entries st ! i = entry \<and>
    \<not> (d_invoiceDate draft \<noteq> [] \<and> parseGermanDate env (Some (d_invoiceDate draft)) = None) \<longrightarrow>
      entries (edit_entry env entry draft st) = (entries st)[i := edited env entry draft] \<and>
      imageName (edited env entry draft) = imageName entry \<and>
      capturedAt (edited env entry draft) = capturedAt entry)"
proof (cases "d_invoiceDate draft \<noteq> [] \<and> parseGermanDate env (Some (d_invoiceDate draft)) = None")
  case True
  then have "edit_entry env entry draft st = st"
    by (simp add: edit_entry_def handleSave_cases)
  with True show ?thesis by simp
next
  case False
  then have hs: "handleSave env entry draft = Saved (edited env entry draft)"
    unfolding handleSave_cases by (simp only: if_False)
  have e: "entries (edit_entry env entry draft st) =
      map (\<lambda>x. if capturedAt x = capturedAt entry then edited env entry draft else x) (entries st)"
    by (simp add: edit_entry_def hs handleUpdateEntry_def)
  have k: "map capturedAt (entries (edit_entry env entry draft st)) = map capturedAt (entries st)"
    unfolding e by (induction "entries st") auto
  have u: "entries (edit_entry env entry draft st) = (entries st)[i := edited env entry draft]"
    if "distinct (map capturedAt (entries st))" "i < length (entries st)" "entries st ! i = entry"
    unfolding e using map_update_distinct [OF that(1,2), of "edited env entry draft"] that(3)
    by simp
  have n: "entries (edit_entry env entry draft st) ! j = entries st ! j"
    if "j < length (entries st)" "capturedAt (entries st ! j) \<noteq> capturedAt entry" for j
    unfolding e using that by simp
  have m: "imageName (entries (edit_entry env entry draft st) ! j) = imageName entry \<and>
           capturedAt (entries (edit_entry env entry draft st) ! j) = capturedAt entry"
    if "j < length (entries st)" "entries st ! j = entry" for j
    unfolding e using that by simp
  have l: "length (entries (edit_entry env entry draft st)) = length (entries st)"
    unfolding e by simp
  show ?thesis
  proof (intro conjI impI allI)
    assume "d_invoiceDate draft \<noteq> [] \<and> parseGermanDate env (Some (d_invoiceDate draft)) = None"
    with False show "edit_entry env entry draft st = st" by simp
  next
    show "length (entries (edit_entry env entry draft st)) = length (entries st)" by (rule l)
    show "map capturedAt (entries (edit_entry env entry draft st)) = map capturedAt (entries st)"
      by (rule k)
  next
    fix j assume "j < length (entries st)" "capturedAt (entries st ! j) \<noteq> capturedAt entry"
    then show "entries (edit_entry env entry draft st) ! j = entries st ! j" by (rule n)
  next
    fix j assume "j < length (entries st)" "entries st ! j = entry"
    then show "imageName (entries (edit_entry env entry draft st) ! j) = imageName entry"
      "capturedAt (entries (edit_entry env entry draft st) ! j) = capturedAt entry"
      using m by simp_all
  next
    assume a: "distinct (map capturedAt (entries st)) \<and> i < length (entries st) \<and>
      entries st ! i = entry \<and>
      \<not> (d_invoiceDate draft \<noteq> [] \<and> parseGermanDate env (Some (d_invoiceDate draft)) = None)"
    then show "entries (edit_entry env entry draft st) = (entries st)[i := edited env entry draft]"
      using u by simp
    show "imageName (edited env entry draft) = imageName entry"
      "capturedAt (edited env entry draft) = capturedAt entry" by simp_all
  qed
qed

theorem user_edit_frame_witness:
  "edit_entry env_utc_plus_1 sample_entry sample_draft
       (sample_state\<lparr>entries := [other_entry, sample_entry]\<rparr>) =
     sample_state\<lparr>entries :=
       [other_entry,
        sample_entry\<lparr>vendor := ''ACME GmbH'', invoiceNumber := ''INV-2'',
                      invoiceDate := Some ''2024-03-02'', totalAmount := ''20,00''\<rparr>]\<rparr> \<and>
   edit_entry env_utc_plus_1 sample_entry (sample_draft\<lparr>d_invoiceDate := ''31.02.2024''\<rparr>)
       (sample_state\<lparr>entries := [other_entry, sample_entry]\<rparr>) =
     sample_state\<lparr>entries := [other_entry, sample_entry]\<rparr>"
proof -
  define st where "st = sample_state\<lparr>entries := [other_entry, sample_entry]\<rparr>"
  have gm: "german_match ''2.3.24'' = Some (''2'', ''3'', ''24'')"
    by (simp add: german_match_def is_digit_def Let_def)
  have p: "parseInt10 ''2024'' = 2024" "parseInt10 ''3'' = 3" "parseInt10 ''2'' = 2"
    by (simp_all add: parseInt10_def digit_val_def)
  have v: "valid_date 2024 3 2" by (simp add: valid_date_def DaysInMonth_def)
  have pd: "parseGermanDate env_utc_plus_1 (Some ''2.3.24'') = Some ''2024-03-02''"
    by (subst parseGermanDate_four_digit [OF gm])
       (simp_all add: expand_year_def p v env_utc_plus_1_def msPerDay_def padStart2_def)
  have d: "distinct (map capturedAt (entries st))" "(1::nat) < length (entries st)"
    "entries st ! 1 = sample_entry"
    by (simp_all add: st_def other_entry_def sample_entry_def)
  have s: "entries st = [other_entry, sample_entry]" by (simp add: st_def)
  have 1: "entries (edit_entry env_utc_plus_1 sample_entry sample_draft st) =
        [other_entry,
        sample_entry\<lparr>vendor := ''ACME GmbH'', invoiceNumber := ''INV-2'',
                      invoiceDate := Some ''2024-03-02'', totalAmount := ''20,00''\<rparr>]"
    using user_edit_frame [of sample_draft env_utc_plus_1 sample_entry st 1] d pd
    by (simp add: s sample_draft_def edited_def)
  have 2: "edit_entry env_utc_plus_1 sample_entry (sample_draft\<lparr>d_invoiceDate := ''31.02.2024''\<rparr>) st = st"
    using user_edit_frame [of "sample_draft\<lparr>d_invoiceDate := ''31.02.2024''\<rparr>" env_utc_plus_1 sample_entry st 1]
      parseGermanDate_rejects_31_02_2024 [of env_utc_plus_1]
    by simp
  have 3: "edit_entry env_utc_plus_1 sample_entry sample_draft st =
           st\<lparr>entries := entries (edit_entry env_utc_plus_1 sample_entry sample_draft st)\<rparr>"
    by (simp add: edit_entry_def handleSave_cases handleUpdateEntry_def st_def sample_state_def
        split: if_splits)
  show ?thesis using 1 2 3 by (simp add: st_def)
qed

end
